theory Spec2Isabelle
  imports Main
begin

section \<open>Python values: strings, cells, exceptions\<close>

text \<open>
  A Python \<open>str\<close> is a sequence of Unicode code points, so a string is a list of
  natural numbers (the code points); \<open>ustr\<close> reads an ASCII literal.
  A cell of a pandas object column is either a string or the missing value \<open>NaN\<close>
  (a float), which is what \<open>pd.notna\<close> and \<open>fillna\<close> in the scripts test for.
  The exceptions are those the modelled lines can raise; \<open>OtherError\<close> stands for
  any failure of the PDF libraries.
\<close>

type_synonym pystr = "nat list"

definition ustr :: "string \<Rightarrow> pystr" where
  "ustr s = map of_char s"

datatype cell = NaN | Str pystr

datatype pyerr = ValueError | TypeError | InvalidIndexError | OtherError

text \<open>\<open>str(x)\<close>: a string is itself, the float NaN prints as \<open>nan\<close>.\<close>

fun py_str :: "cell \<Rightarrow> pystr" where
  "py_str (Str s) = s"
| "py_str NaN = ustr ''nan''"

text \<open>\<open>pd.notna(x)\<close> on a scalar.\<close>

fun pd_notna :: "cell \<Rightarrow> bool" where
  "pd_notna NaN = False"
| "pd_notna (Str s) = True"

text \<open>
  \<open>str.isspace\<close> on one code point: the code points Python treats as whitespace in
  \<open>split()\<close> and \<open>strip()\<close> (U+0009..U+000D, U+001C..U+0020, U+0085, U+00A0, U+1680,
  U+2000..U+200A, U+2028, U+2029, U+202F, U+205F, U+3000).
\<close>

definition py_isspace :: "nat \<Rightarrow> bool" where
  "py_isspace c \<longleftrightarrow>
     (9 \<le> c \<and> c \<le> 13) \<or> (28 \<le> c \<and> c \<le> 32) \<or> c = 133 \<or> c = 160 \<or> c = 5760 \<or>
     (8192 \<le> c \<and> c \<le> 8202) \<or> c = 8232 \<or> c = 8233 \<or> c = 8239 \<or> c = 8287 \<or> c = 12288"

text \<open>\<open>s.encode('ASCII', 'ignore').decode('utf-8')\<close>: code points above 127 are dropped.\<close>

definition encode_ascii_ignore :: "pystr \<Rightarrow> pystr" where
  "encode_ascii_ignore s = filter (\<lambda>c. c < 128) s"

text \<open>\<open>str.lower\<close> on a code point of an ASCII string: \<open>A\<close>..\<open>Z\<close> go to \<open>a\<close>..\<open>z\<close>.\<close>

definition lower_char :: "nat \<Rightarrow> nat" where
  "lower_char c = (if 65 \<le> c \<and> c \<le> 90 then c + 32 else c)"

definition py_lower :: "pystr \<Rightarrow> pystr" where
  "py_lower s = map lower_char s"

text \<open>
  \<open>s.split()\<close> without argument: the maximal runs of non-whitespace code points, in
  order; \<open>cur\<close> is the word being read.
\<close>

fun split_from :: "pystr \<Rightarrow> pystr \<Rightarrow> pystr list" where
  "split_from cur [] = (if cur = [] then [] else [cur])"
| "split_from cur (c # cs) =
     (if py_isspace c then (if cur = [] then split_from [] cs else cur # split_from [] cs)
      else split_from (cur @ [c]) cs)"

definition py_split :: "pystr \<Rightarrow> pystr list" where
  "py_split s = split_from [] s"

text \<open>\<open>sep.join(parts)\<close>.\<close>

fun py_join :: "pystr \<Rightarrow> pystr list \<Rightarrow> pystr" where
  "py_join sep [] = []"
| "py_join sep [w] = w"
| "py_join sep (w # v # ws) = w @ sep @ py_join sep (v # ws)"

text \<open>\<open>s.split(',')\<close>: split at every separator; the result is never empty.\<close>

fun split_sep_from :: "nat \<Rightarrow> pystr \<Rightarrow> pystr \<Rightarrow> pystr list" where
  "split_sep_from sep cur [] = [cur]"
| "split_sep_from sep cur (c # cs) =
     (if c = sep then cur # split_sep_from sep [] cs else split_sep_from sep (cur @ [c]) cs)"

definition py_split_sep :: "nat \<Rightarrow> pystr \<Rightarrow> pystr list" where
  "py_split_sep sep s = split_sep_from sep [] s"

text \<open>\<open>s.strip()\<close>: whitespace removed at both ends.\<close>

definition py_strip :: "pystr \<Rightarrow> pystr" where
  "py_strip s = rev (dropWhile py_isspace (rev (dropWhile py_isspace s)))"

text \<open>\<open>a in b\<close> on strings: \<open>a\<close> occurs in \<open>b\<close> as a contiguous substring.\<close>

fun starts_with :: "pystr \<Rightarrow> pystr \<Rightarrow> bool" where
  "starts_with [] b = True"
| "starts_with (x # a) [] = False"
| "starts_with (x # a) (y # b) = (x = y \<and> starts_with a b)"

fun py_in :: "pystr \<Rightarrow> pystr \<Rightarrow> bool" where
  "py_in a [] = (a = [])"
| "py_in a (y # b) = (starts_with a (y # b) \<or> py_in a b)"

section \<open>The text normalizer\<close>

text \<open>
  \<open>normalize_text\<close> of \<open>process_statements.py\<close>. The argument is \<open>None\<close> or a value;
  \<open>unicodedata.normalize('NFKD', _)\<close> is the library function, taken as the
  parameter \<open>nfkd\<close>. The Unicode standard leaves ASCII strings unchanged under NFKD;
  the theorems that need this say so with \<open>nfkd_fixes_ascii\<close>.
\<close>

definition normalize_text :: "(pystr \<Rightarrow> pystr) \<Rightarrow> cell option \<Rightarrow> pystr" where
  "normalize_text nfkd text =
     (case text of
        None \<Rightarrow> []
      | Some t \<Rightarrow>
          (let nfkd_form = nfkd (py_str t);
               only_ascii = py_lower (encode_ascii_ignore nfkd_form)
           in py_join (ustr '' '') (py_split only_ascii)))"

definition is_ascii :: "pystr \<Rightarrow> bool" where
  "is_ascii s \<longleftrightarrow> (\<forall>c \<in> set s. c < 128)"

definition nfkd_fixes_ascii :: "(pystr \<Rightarrow> pystr) \<Rightarrow> bool" where
  "nfkd_fixes_ascii nfkd \<longleftrightarrow> (\<forall>s. is_ascii s \<longrightarrow> nfkd s = s)"

text \<open>
  A small instance of the decomposition for concrete runs: the precomposed letters
  U+00C9, U+00E9, U+00ED and U+00F3 split into their base letter and a combining acute
  accent (U+0301); every other code point stays.
\<close>

fun nfkd_char :: "nat \<Rightarrow> pystr" where
  "nfkd_char c =
     (if c = 201 then [69, 769] else if c = 233 then [101, 769]
      else if c = 237 then [105, 769] else if c = 243 then [111, 769] else [c])"

definition nfkd_sample :: "pystr \<Rightarrow> pystr" where
  "nfkd_sample s = concat (map nfkd_char s)"

section \<open>Data frames and the row merger\<close>

text \<open>
  A pandas DataFrame as the scripts use it: the column labels in order, and the rows in
  order, each row holding one cell per column. \<open>pd.DataFrame()\<close> is the frame with no
  column and no row.
\<close>

record dataframe =
  columns :: "pystr list"
  rows :: "cell list list"

definition empty_frame :: dataframe where
  "empty_frame = \<lparr>columns = [], rows = []\<rparr>"

text \<open>
  \<open>row[label]\<close> on a row Series whose index is the column labels: where the label
  occurs once the result is that cell, where it occurs several times the result is a
  Series of the cells under it. The scripts read a label only after checking that it
  is among the columns.
\<close>

datatype item = Scalar cell | SubSeries "cell list"

fun index_of :: "pystr \<Rightarrow> pystr list \<Rightarrow> nat" where
  "index_of label [] = 0"
| "index_of label (c # cs) = (if c = label then 0 else Suc (index_of label cs))"

definition getitem :: "pystr list \<Rightarrow> cell list \<Rightarrow> pystr \<Rightarrow> item" where
  "getitem cols row label =
     (if count_list cols label = 1 then Scalar (row ! index_of label cols)
      else SubSeries (map snd (filter (\<lambda>(c, v). c = label) (zip cols row))))"

text \<open>\<open>row[label] = v\<close> for a label that occurs once.\<close>

definition setitem :: "pystr list \<Rightarrow> cell list \<Rightarrow> pystr \<Rightarrow> cell \<Rightarrow> cell list" where
  "setitem cols row label v = row[index_of label cols := v]"

text \<open>
  The loop of \<open>merge_concepto_lines\<close> (\<open>process_statements.py\<close>), with its two
  variables \<open>processed_rows\<close> and \<open>current_transaction_index\<close> passed along.
  \<open>to_numeric_notna x\<close> stands for the library expression
  \<open>pd.notna(pd.to_numeric(x, errors='coerce'))\<close> on a scalar. Where \<open>row['dia']\<close> or
  \<open>row['concepto']\<close> is a Series (a repeated label), the test of its truth value
  raises \<open>ValueError\<close>; \<open>+=\<close> on a NaN cell (a float) with a string raises
  \<open>TypeError\<close>.
\<close>

fun merge_rows ::
  "(cell \<Rightarrow> bool) \<Rightarrow> pystr list \<Rightarrow> cell list list \<Rightarrow> cell list list \<Rightarrow> int
     \<Rightarrow> pyerr + cell list list" where
  "merge_rows to_numeric_notna cols [] processed_rows current_transaction_index =
     Inr processed_rows"
| "merge_rows to_numeric_notna cols (row # rest) processed_rows current_transaction_index =
     (case getitem cols row (ustr ''dia'') of
        SubSeries vs \<Rightarrow> Inl ValueError
      | Scalar d \<Rightarrow>
          if to_numeric_notna d then
            merge_rows to_numeric_notna cols rest (processed_rows @ [row])
              (int (length (processed_rows @ [row])) - 1)
          else if current_transaction_index \<noteq> - 1 then
            (case getitem cols row (ustr ''concepto'') of
               SubSeries vs \<Rightarrow> Inl ValueError
             | Scalar c \<Rightarrow>
                 if pd_notna c \<and> py_strip (py_str c) \<noteq> [] then
                   (case processed_rows ! nat current_transaction_index
                           ! index_of (ustr ''concepto'') cols of
                      NaN \<Rightarrow> Inl TypeError
                    | Str s \<Rightarrow>
                        merge_rows to_numeric_notna cols rest
                          (processed_rows[nat current_transaction_index :=
                             setitem cols (processed_rows ! nat current_transaction_index)
                               (ustr ''concepto'') (Str (s @ ustr '' '' @ py_str c))])
                          current_transaction_index)
                 else merge_rows to_numeric_notna cols rest processed_rows
                        current_transaction_index)
          else merge_rows to_numeric_notna cols rest processed_rows current_transaction_index)"

text \<open>
  \<open>merge_concepto_lines\<close> of \<open>process_statements.py\<close>. The final
  \<open>pd.DataFrame(processed_rows)\<close> aligns the row Series on their labels, which pandas
  refuses (\<open>InvalidIndexError\<close>) when a label is repeated.
\<close>

definition merge_concepto_lines :: "(cell \<Rightarrow> bool) \<Rightarrow> dataframe \<Rightarrow> pyerr + dataframe" where
  "merge_concepto_lines to_numeric_notna df =
     (if ustr ''dia'' \<notin> set (columns df) \<or> ustr ''concepto'' \<notin> set (columns df) then Inr df
      else
        (case merge_rows to_numeric_notna (columns df) (rows df) [] (- 1) of
           Inl e \<Rightarrow> Inl e
         | Inr processed_rows \<Rightarrow>
             if processed_rows = [] then Inr empty_frame
             else if distinct (columns df) then
               Inr \<lparr>columns = columns df, rows = processed_rows\<rparr>
             else Inl InvalidIndexError))"

section \<open>The functions of \<open>debug.py\<close>\<close>

text \<open>
  \<open>debug.py\<close> has its own \<open>normalize_text\<close> and \<open>merge_concepto_lines\<close>; they are
  translated from that file (its pass-through branch also prints a warning, which is
  not part of the returned value).
\<close>

definition debug_normalize_text :: "(pystr \<Rightarrow> pystr) \<Rightarrow> cell option \<Rightarrow> pystr" where
  "debug_normalize_text nfkd text =
     (case text of
        None \<Rightarrow> []
      | Some t \<Rightarrow>
          (let nfkd_form = nfkd (py_str t);
               only_ascii = py_lower (encode_ascii_ignore nfkd_form)
           in py_join (ustr '' '') (py_split only_ascii)))"

fun debug_merge_rows ::
  "(cell \<Rightarrow> bool) \<Rightarrow> pystr list \<Rightarrow> cell list list \<Rightarrow> cell list list \<Rightarrow> int
     \<Rightarrow> pyerr + cell list list" where
  "debug_merge_rows to_numeric_notna cols [] processed_rows current_transaction_index =
     Inr processed_rows"
| "debug_merge_rows to_numeric_notna cols (row # rest) processed_rows
       current_transaction_index =
     (case getitem cols row (ustr ''dia'') of
        SubSeries vs \<Rightarrow> Inl ValueError
      | Scalar d \<Rightarrow>
          if to_numeric_notna d then
            debug_merge_rows to_numeric_notna cols rest (processed_rows @ [row])
              (int (length (processed_rows @ [row])) - 1)
          else if current_transaction_index \<noteq> - 1 then
            (case getitem cols row (ustr ''concepto'') of
               SubSeries vs \<Rightarrow> Inl ValueError
             | Scalar c \<Rightarrow>
                 if pd_notna c \<and> py_strip (py_str c) \<noteq> [] then
                   (case processed_rows ! nat current_transaction_index
                           ! index_of (ustr ''concepto'') cols of
                      NaN \<Rightarrow> Inl TypeError
                    | Str s \<Rightarrow>
                        debug_merge_rows to_numeric_notna cols rest
                          (processed_rows[nat current_transaction_index :=
                             setitem cols (processed_rows ! nat current_transaction_index)
                               (ustr ''concepto'') (Str (s @ ustr '' '' @ py_str c))])
                          current_transaction_index)
                 else debug_merge_rows to_numeric_notna cols rest processed_rows
                        current_transaction_index)
          else debug_merge_rows to_numeric_notna cols rest processed_rows
                 current_transaction_index)"

definition debug_merge_concepto_lines ::
  "(cell \<Rightarrow> bool) \<Rightarrow> dataframe \<Rightarrow> pyerr + dataframe" where
  "debug_merge_concepto_lines to_numeric_notna df =
     (if ustr ''dia'' \<notin> set (columns df) \<or> ustr ''concepto'' \<notin> set (columns df) then Inr df
      else
        (case debug_merge_rows to_numeric_notna (columns df) (rows df) [] (- 1) of
           Inl e \<Rightarrow> Inl e
         | Inr processed_rows \<Rightarrow>
             if processed_rows = [] then Inr empty_frame
             else if distinct (columns df) then
               Inr \<lparr>columns = columns df, rows = processed_rows\<rparr>
             else Inl InvalidIndexError))"

section \<open>The rulebook matcher\<close>

text \<open>
  A row of the rulebook, with the columns the scripts read. \<open>Priority\<close> is the key the
  main script sorts by before any call; \<open>Keywords\<close> is read with
  \<open>rule.get('Keywords', '')\<close>, so a rulebook without that column gives \<open>None\<close> here and
  the default \<open>''\<close> there; \<open>Output Template\<close> is read with \<open>rule['Output Template']\<close>,
  a column every rulebook has. A cell of either column is a text, or NaN where the
  sheet has nothing.
\<close>

record rule =
  Priority :: int
  Keywords :: "cell option"
  Output_Template :: cell

text \<open>\<open>str(rule.get('Keywords', '')).split(',')\<close>; 44 is the comma.\<close>

definition rule_keywords :: "rule \<Rightarrow> pystr list" where
  "rule_keywords r =
     py_split_sep 44 (py_str (case Keywords r of None \<Rightarrow> Str [] | Some k \<Rightarrow> k))"

text \<open>The loop of \<open>apply_rules\<close> over the rows of \<open>rules_df\<close>, in their order.\<close>

fun apply_rules_loop :: "(pystr \<Rightarrow> pystr) \<Rightarrow> cell \<Rightarrow> pystr \<Rightarrow> rule list \<Rightarrow> cell" where
  "apply_rules_loop nfkd concepto normalized_concepto [] = concepto"
| "apply_rules_loop nfkd concepto normalized_concepto (r # rest) =
     (let keywords = rule_keywords r
      in if list_all (\<lambda>kw. py_in (normalize_text nfkd (Some (Str kw))) normalized_concepto)
              keywords
         then Str (py_str (Output_Template r))
         else apply_rules_loop nfkd concepto normalized_concepto rest)"

definition apply_rules :: "(pystr \<Rightarrow> pystr) \<Rightarrow> cell \<Rightarrow> rule list \<Rightarrow> cell" where
  "apply_rules nfkd concepto rules_df =
     (let normalized_concepto = normalize_text nfkd (Some concepto)
      in apply_rules_loop nfkd concepto normalized_concepto rules_df)"

section \<open>Page range, table extraction and header detection\<close>

text \<open>
  A document as \<open>find_transaction_tables\<close> sees it: what opening it with
  \<open>fitz\<close> and reading the text of its pages gives (a failure, or the page texts in
  order), and what \<open>camelot.read_pdf\<close> gives on a page range (a failure, or the raw
  tables, each a grid of cells).
\<close>

record document =
  page_texts :: "pyerr + pystr list"
  camelot_read_pdf :: "nat \<Rightarrow> nat \<Rightarrow> pyerr + cell list list list"

definition start_marker :: "(pystr \<Rightarrow> pystr) \<Rightarrow> pystr" where
  "start_marker nfkd = normalize_text nfkd (Some (Str (ustr ''saldo inicial'')))"

definition end_marker :: "(pystr \<Rightarrow> pystr) \<Rightarrow> pystr" where
  "end_marker nfkd = normalize_text nfkd (Some (Str (ustr ''saldo minimo requerido'')))"

definition required_headers :: "(pystr \<Rightarrow> pystr) \<Rightarrow> pystr list" where
  "required_headers nfkd =
     map (\<lambda>h. normalize_text nfkd (Some (Str h)))
       [ustr ''dia'', ustr ''concepto'', ustr ''cargos'', ustr ''abonos'', ustr ''saldo'']"

text \<open>The loop over \<open>enumerate(doc, start=1)\<close>.\<close>

fun scan_pages ::
  "(pystr \<Rightarrow> pystr) \<Rightarrow> nat \<Rightarrow> pystr list \<Rightarrow> nat option \<Rightarrow> nat option
     \<Rightarrow> nat option \<times> nat option" where
  "scan_pages nfkd page_num [] start_page end_page = (start_page, end_page)"
| "scan_pages nfkd page_num (page # rest) start_page end_page =
     (let text = normalize_text nfkd (Some (Str page));
          start_page' = (if start_page = None \<and> py_in (start_marker nfkd) text
                         then Some page_num else start_page);
          end_page' = (if py_in (end_marker nfkd) text then Some page_num else end_page)
      in scan_pages nfkd (page_num + 1) rest start_page' end_page')"

text \<open>\<open>df.empty\<close> on a raw table: no row, or no column.\<close>

definition df_empty :: "cell list list \<Rightarrow> bool" where
  "df_empty df \<longleftrightarrow> df = [] \<or> hd df = []"

text \<open>\<open>fillna('')\<close> on one cell.\<close>

fun fillna_empty :: "cell \<Rightarrow> cell" where
  "fillna_empty NaN = Str []"
| "fillna_empty (Str s) = Str s"

definition row_as_string :: "(pystr \<Rightarrow> pystr) \<Rightarrow> cell list \<Rightarrow> pystr" where
  "row_as_string nfkd row =
     py_join (ustr '' '') (map (\<lambda>cell. normalize_text nfkd (Some (fillna_empty cell))) row)"

definition is_header_row :: "(pystr \<Rightarrow> pystr) \<Rightarrow> cell list \<Rightarrow> bool" where
  "is_header_row nfkd row =
     list_all (\<lambda>req_header. py_in req_header (row_as_string nfkd row)) (required_headers nfkd)"

text \<open>
  The loop \<open>for i in range(min(5, len(df)))\<close> with its \<open>break\<close>, run from row \<open>i\<close> on
  the candidate rows; \<open>None\<close> is the source's \<open>header_found_at_row = -1\<close>.
\<close>

fun find_header_row :: "(pystr \<Rightarrow> pystr) \<Rightarrow> nat \<Rightarrow> cell list list \<Rightarrow> nat option" where
  "find_header_row nfkd i [] = None"
| "find_header_row nfkd i (row # rest) =
     (if is_header_row nfkd row then Some i else find_header_row nfkd (i + 1) rest)"

text \<open>The body of the loop over the extracted tables: the frame a table contributes, if any.\<close>

definition normalize_table :: "(pystr \<Rightarrow> pystr) \<Rightarrow> cell list list \<Rightarrow> dataframe option" where
  "normalize_table nfkd df =
     (if df_empty df then None
      else
        (case find_header_row nfkd 0 (take (min 5 (length df)) df) of
           None \<Rightarrow> None
         | Some header_found_at_row \<Rightarrow>
             Some \<lparr>columns = map (\<lambda>c. normalize_text nfkd (Some c)) (df ! header_found_at_row),
                   rows = drop (header_found_at_row + 1) df\<rparr>))"

fun final_tables :: "(pystr \<Rightarrow> pystr) \<Rightarrow> cell list list list \<Rightarrow> dataframe list" where
  "final_tables nfkd [] = []"
| "final_tables nfkd (table # rest) =
     (case normalize_table nfkd table of
        None \<Rightarrow> final_tables nfkd rest
      | Some df \<Rightarrow> df # final_tables nfkd rest)"

definition find_transaction_tables :: "(pystr \<Rightarrow> pystr) \<Rightarrow> document \<Rightarrow> dataframe list" where
  "find_transaction_tables nfkd doc =
     (case page_texts doc of
        Inl e \<Rightarrow> []
      | Inr pages \<Rightarrow>
          (case scan_pages nfkd 1 pages None None of
             (Some start_page, Some end_page) \<Rightarrow>
               if end_page < start_page then []
               else
                 (case camelot_read_pdf doc start_page end_page of
                    Inl e \<Rightarrow> []
                  | Inr tables \<Rightarrow> final_tables nfkd tables)
           | _ \<Rightarrow> []))"

text \<open>
  The loop of the main script over the documents. What it does with the tables of one
  document (concatenation, merging, rule matching and writing the sheet) is the
  parameter \<open>write_sheet\<close>; it can raise, and nothing in the loop catches that.
\<close>

fun main_loop ::
  "(pystr \<Rightarrow> pystr) \<Rightarrow> (dataframe list \<Rightarrow> pyerr + 's) \<Rightarrow> document list \<Rightarrow> pyerr + 's list" where
  "main_loop nfkd write_sheet [] = Inr []"
| "main_loop nfkd write_sheet (doc # rest) =
     (let tables_from_pdf = find_transaction_tables nfkd doc
      in if tables_from_pdf = [] then main_loop nfkd write_sheet rest
         else
           (case write_sheet tables_from_pdf of
              Inl e \<Rightarrow> Inl e
            | Inr sheet \<Rightarrow>
                (case main_loop nfkd write_sheet rest of
                   Inl e \<Rightarrow> Inl e
                 | Inr sheets \<Rightarrow> Inr (sheet # sheets))))"

section \<open>Notions used in the statements\<close>

text \<open>A string occurs in another as a substring.\<close>

definition is_substring :: "pystr \<Rightarrow> pystr \<Rightarrow> bool" where
  "is_substring a b \<longleftrightarrow> (\<exists>p s. b = p @ a @ s)"

text \<open>The words a text is normalized to, before they are joined.\<close>

definition norm_words :: "(pystr \<Rightarrow> pystr) \<Rightarrow> cell \<Rightarrow> pystr list" where
  "norm_words nfkd t = py_split (py_lower (encode_ascii_ignore (nfkd (py_str t))))"

text \<open>
  A row starts a transaction: its \<open>dia\<close> cell passes the numeric test of the merger.
\<close>

definition starts_transaction :: "(cell \<Rightarrow> bool) \<Rightarrow> pystr list \<Rightarrow> cell list \<Rightarrow> bool" where
  "starts_transaction to_numeric_notna cols row =
     (case getitem cols row (ustr ''dia'') of
        Scalar d \<Rightarrow> to_numeric_notna d
      | SubSeries vs \<Rightarrow> False)"

text \<open>Two rows hold the same cells at every position but \<open>k\<close>.\<close>

definition same_outside :: "nat \<Rightarrow> cell list \<Rightarrow> cell list \<Rightarrow> bool" where
  "same_outside k r r' \<longleftrightarrow> length r = length r' \<and> (\<forall>j. j \<noteq> k \<longrightarrow> r ! j = r' ! j)"

text \<open>
  The merger in the words of the specification, on the rows: a row with a numeric
  \<open>dia\<close> is appended to the output as it is; any other row, when there is an output
  row and its own \<open>concepto\<close> is present and not blank, has a space and its raw
  \<open>concepto\<close> appended to the \<open>concepto\<close> of the last output row; else it is dropped.
\<close>

fun merge_by_spec ::
  "(cell \<Rightarrow> bool) \<Rightarrow> pystr list \<Rightarrow> cell list list \<Rightarrow> cell list list \<Rightarrow> cell list list" where
  "merge_by_spec numeric cols [] out = out"
| "merge_by_spec numeric cols (row # rest) out =
     (let k = index_of (ustr ''concepto'') cols
      in if numeric (row ! index_of (ustr ''dia'') cols) then
           merge_by_spec numeric cols rest (out @ [row])
         else if out \<noteq> [] \<and> pd_notna (row ! k) \<and> py_strip (py_str (row ! k)) \<noteq> [] then
           merge_by_spec numeric cols rest
             (butlast out @ [(last out)[k := Str (py_str (last out ! k) @ [32] @ py_str (row ! k))]])
         else merge_by_spec numeric cols rest out)"

text \<open>
  The tables on which the merger is compared with it: every row has one cell per
  column, and every row with a numeric \<open>dia\<close> has a text under \<open>concepto\<close>.
\<close>

definition mergeable_rows :: "(cell \<Rightarrow> bool) \<Rightarrow> pystr list \<Rightarrow> cell list list \<Rightarrow> bool" where
  "mergeable_rows numeric cols rs \<longleftrightarrow>
     (\<forall>row \<in> set rs. length row = length cols
        \<and> (numeric (row ! index_of (ustr ''dia'') cols)
             \<longrightarrow> (\<exists>s. row ! index_of (ustr ''concepto'') cols = Str s)))"

text \<open>
  An instance of the numeric test for concrete runs: a non-empty string of decimal
  digits passes, the empty string, other text and NaN do not.
\<close>

definition to_numeric_sample :: "cell \<Rightarrow> bool" where
  "to_numeric_sample c =
     (case c of NaN \<Rightarrow> False | Str s \<Rightarrow> s \<noteq> [] \<and> list_all (\<lambda>d. 48 \<le> d \<and> d \<le> 57) s)"

text \<open>
  A rule matches a concepto: every one of its keywords, normalized on its own, is a
  substring of the normalized concepto.
\<close>

definition rule_matches :: "(pystr \<Rightarrow> pystr) \<Rightarrow> cell \<Rightarrow> rule \<Rightarrow> bool" where
  "rule_matches nfkd concepto r \<longleftrightarrow>
     (\<forall>kw \<in> set (rule_keywords r).
        is_substring (normalize_text nfkd (Some (Str kw))) (normalize_text nfkd (Some concepto)))"

text \<open>
  The comma-separated keywords of a rule, said without the splitting of the code: the
  \<open>Keywords\<close> text of a rule (empty when the rulebook has no such column, \<open>nan\<close> for
  an empty cell), and the keyword lists that give it back when joined with commas
  (code point 44), none of the keywords holding a comma.
\<close>

fun comma_joined :: "pystr list \<Rightarrow> pystr" where
  "comma_joined [] = []"
| "comma_joined [kw] = kw"
| "comma_joined (kw # kw' # kws) = kw @ [44] @ comma_joined (kw' # kws)"

definition splits_at_commas :: "pystr \<Rightarrow> pystr list \<Rightarrow> bool" where
  "splits_at_commas text kws \<longleftrightarrow>
     kws \<noteq> [] \<and> (\<forall>kw \<in> set kws. 44 \<notin> set kw) \<and> comma_joined kws = text"

definition keywords_text :: "rule \<Rightarrow> pystr" where
  "keywords_text r =
     (case Keywords r of None \<Rightarrow> [] | Some NaN \<Rightarrow> ustr ''nan'' | Some (Str s) \<Rightarrow> s)"

text \<open>
  Every comma-separated keyword of a rule, normalized on its own, is a substring of the
  normalized concepto.
\<close>

definition all_keywords_found :: "(pystr \<Rightarrow> pystr) \<Rightarrow> cell \<Rightarrow> rule \<Rightarrow> bool" where
  "all_keywords_found nfkd concepto r \<longleftrightarrow>
     (\<exists>kws. splits_at_commas (keywords_text r) kws
        \<and> (\<forall>kw \<in> set kws.
              is_substring (normalize_text nfkd (Some (Str kw)))
                (normalize_text nfkd (Some concepto))))"

text \<open>The test of \<open>apply_rules\<close> on one rule, given the normalized concepto.\<close>

definition kw_test :: "(pystr \<Rightarrow> pystr) \<Rightarrow> pystr \<Rightarrow> rule \<Rightarrow> bool" where
  "kw_test nfkd n r =
     list_all (\<lambda>kw. py_in (normalize_text nfkd (Some (Str kw))) n) (rule_keywords r)"

text \<open>The rulebook of the specification's example.\<close>

definition example_rules :: "rule list" where
  "example_rules =
     [\<lparr>Priority = 1, Keywords = Some (Str (ustr ''pago,proveedor'')),
       Output_Template = Str (ustr ''Pago a Proveedor'')\<rparr>,
      \<lparr>Priority = 2, Keywords = Some (Str (ustr ''pago'')),
       Output_Template = Str (ustr ''Pago Generico'')\<rparr>]"


text \<open>
  A document of five pages for concrete runs: page 3 carries both markers (with
  capitals, an accent and doubled spaces), page 5 the end marker again.
\<close>

definition example_pages :: "pystr list" where
  "example_pages =
     [ustr ''Estado de cuenta'', ustr ''Resumen'',
      ustr ''SALDO  INICIAL 100.00 Saldo m'' @ [237] @ ustr ''nimo requerido 0.00'',
      ustr ''1 PAGO'',
      ustr ''Saldo M'' @ [237] @ ustr ''nimo  Requerido'']"

text \<open>
  The test after the scan, \<open>start_page is None or end_page is None or end_page <
  start_page\<close>, on the pair the scan gives.
\<close>

definition invalid_range :: "nat option \<times> nat option \<Rightarrow> bool" where
  "invalid_range r =
     (case r of
        (Some start_page, Some end_page) \<Rightarrow> end_page < start_page
      | _ \<Rightarrow> True)"

text \<open>
  A document gives no page range: it cannot be opened or read, or the scan of its
  pages ends with an invalid range.
\<close>

definition no_page_range :: "(pystr \<Rightarrow> pystr) \<Rightarrow> document \<Rightarrow> bool" where
  "no_page_range nfkd doc =
     (case page_texts doc of
        Inl e \<Rightarrow> True
      | Inr pages \<Rightarrow> invalid_range (scan_pages nfkd 1 pages None None))"

text \<open>
  A row qualifies as the header: every required label, normalized, is a substring of
  the row's cells normalized (a missing cell counting as empty) and joined with spaces.
\<close>

definition qualifies :: "(pystr \<Rightarrow> pystr) \<Rightarrow> cell list \<Rightarrow> bool" where
  "qualifies nfkd row \<longleftrightarrow>
     (\<forall>label \<in> set [ustr ''dia'', ustr ''concepto'', ustr ''cargos'', ustr ''abonos'',
                       ustr ''saldo''].
        is_substring (normalize_text nfkd (Some (Str label)))
          (py_join (ustr '' '')
             (map (\<lambda>cell. normalize_text nfkd (Some (fillna_empty cell))) row)))"

text \<open>
  The raw table of the specification's example: the header is row 2 (counting from 0),
  written with capitals and an accent, and two data rows follow it.
\<close>

definition example_table :: "cell list list" where
  "example_table =
     [[Str (ustr ''BANCO''), Str [], Str [], Str [], Str []],
      [Str (ustr ''Detalle de movimientos''), Str [], Str [], Str [], Str []],
      [Str ([68, 237, 97]), Str (ustr ''CONCEPTO''), Str (ustr ''Cargos''),
       Str (ustr ''Abonos''), Str (ustr ''Saldo'')],
      [Str (ustr ''1''), Str (ustr ''PAGO A''), Str (ustr ''10.00''), Str [], Str (ustr ''90.00'')],
      [Str [], Str (ustr ''PROVEEDOR X''), Str [], Str [], Str []]]"

text \<open>
  Documents for concrete runs: one that reads well and has the example table on its
  pages 3 to 5, one that cannot be opened, and one whose only end marker comes before
  its only start marker.
\<close>

definition example_doc :: document where
  "example_doc =
     \<lparr>page_texts = Inr example_pages,
      camelot_read_pdf = (\<lambda>s e. if s = 3 \<and> e = 5 then Inr [example_table] else Inr [])\<rparr>"

definition unreadable_doc :: document where
  "unreadable_doc =
     \<lparr>page_texts = Inl OtherError, camelot_read_pdf = (\<lambda>s e. Inr [example_table])\<rparr>"

definition reversed_doc :: document where
  "reversed_doc =
     \<lparr>page_texts = Inr [ustr ''Saldo minimo requerido'', ustr ''Saldo inicial''],
      camelot_read_pdf = (\<lambda>s e. Inr [example_table])\<rparr>"

definition example_frame :: dataframe where
  "example_frame =
     \<lparr>columns = [ustr ''dia'', ustr ''concepto'', ustr ''cargos'', ustr ''abonos'',
                 ustr ''saldo''],
      rows = [[Str (ustr ''1''), Str (ustr ''PAGO A''), Str (ustr ''10.00''), Str [],
               Str (ustr ''90.00'')],
              [Str [], Str (ustr ''PROVEEDOR X''), Str [], Str [], Str []]]\<rparr>"

text \<open>
  A raw table whose header row carries the five labels inside one cell, and the frame
  header detection makes of it.
\<close>

definition one_cell_table :: "cell list list" where
  "one_cell_table =
     [[Str (ustr ''Dia Concepto Cargos Abonos Saldo'')],
      [Str (ustr ''1 PAGO A 10.00 90.00'')],
      [Str (ustr ''PROVEEDOR X'')]]"

definition one_cell_frame :: dataframe where
  "one_cell_frame =
     \<lparr>columns = [ustr ''dia concepto cargos abonos saldo''],
      rows = [[Str (ustr ''1 PAGO A 10.00 90.00'')], [Str (ustr ''PROVEEDOR X'')]]\<rparr>"

section \<open>The normalizer: proofs\<close>

lemma split_from_no_space:
  "\<forall>c \<in> set w. \<not> py_isspace c \<Longrightarrow> split_from cur (w @ rest) = split_from (cur @ w) rest"
  by (induction w arbitrary: cur) simp_all

lemma split_from_words:
  "\<forall>c \<in> set cur. \<not> py_isspace c \<Longrightarrow> w \<in> set (split_from cur s)
     \<Longrightarrow> w \<noteq> [] \<and> (\<forall>c \<in> set w. \<not> py_isspace c)"
proof (induction s arbitrary: cur)
  case Nil
  then show ?case by (cases "cur = []") simp_all
next
  case (Cons c cs)
  show ?case
  proof (cases "py_isspace c")
    case True
    have nil: "\<forall>c \<in> set ([]::pystr). \<not> py_isspace c" by simp
    from Cons.prems(2) True have "w = cur \<and> cur \<noteq> [] \<or> w \<in> set (split_from [] cs)"
      by (cases "cur = []") simp_all
    then show ?thesis
    proof
      assume "w = cur \<and> cur \<noteq> []"
      with Cons.prems(1) show ?thesis by simp
    next
      assume "w \<in> set (split_from [] cs)"
      from Cons.IH [OF nil this] show ?thesis .
    qed
  next
    case False
    with Cons.prems(2) have w: "w \<in> set (split_from (cur @ [c]) cs)" by simp
    from Cons.prems(1) False have "\<forall>d \<in> set (cur @ [c]). \<not> py_isspace d" by simp
    from Cons.IH [OF this w] show ?thesis .
  qed
qed

lemma split_from_chars:
  "w \<in> set (split_from cur s) \<Longrightarrow> set w \<subseteq> set cur \<union> set s"
proof (induction cur s rule: split_from.induct)
  case (1 cur)
  then show ?case by (simp split: if_splits)
next
  case (2 cur c cs)
  show ?case
  proof (cases "py_isspace c")
    case True
    with 2 show ?thesis by (cases "cur = []") auto
  next
    case False
    with 2 show ?thesis by auto
  qed
qed

lemma space_is_space: "py_isspace 32"
  by (simp add: py_isspace_def)

lemma split_join_words:
  "\<forall>w \<in> set ws. w \<noteq> [] \<and> (\<forall>c \<in> set w. \<not> py_isspace c)
     \<Longrightarrow> split_from [] (py_join [32] ws) = ws"
proof (induction "[32::nat]" ws rule: py_join.induct)
  case 1
  then show ?case by simp
next
  case (2 w)
  then have "split_from [] (w @ []) = split_from ([] @ w) []"
    by (intro split_from_no_space) simp
  with 2 show ?case by simp
next
  case (3 w v ws)
  have "split_from [] (w @ ([32] @ py_join [32] (v # ws)))
          = split_from ([] @ w) ([32] @ py_join [32] (v # ws))"
    using 3 by (intro split_from_no_space) simp
  with 3 show ?case by (simp add: space_is_space)
qed

lemma join_chars: "set (py_join sep ws) \<subseteq> set sep \<union> \<Union> (set ` set ws)"
  by (induction sep ws rule: py_join.induct) auto

lemma ustr_space: "ustr '' '' = [32]"
  by (simp add: ustr_def)

lemma lower_char_idem: "lower_char (lower_char c) = lower_char c"
  by (simp add: lower_char_def)

lemma lower_char_not_upper: "\<not> (65 \<le> lower_char c \<and> lower_char c \<le> 90)"
  by (simp add: lower_char_def)

lemma lower_char_ascii: "c < 128 \<Longrightarrow> lower_char c < 128"
  by (simp add: lower_char_def)

lemma normalize_text_Some: "normalize_text nfkd (Some t) = py_join [32] (norm_words nfkd t)"
  by (simp add: normalize_text_def norm_words_def ustr_space)

lemma norm_words_word:
  assumes "w \<in> set (norm_words nfkd t)"
  shows "w \<noteq> []" and "\<forall>c \<in> set w. \<not> py_isspace c"
    and "\<forall>c \<in> set w. c < 128 \<and> lower_char c = c"
proof -
  from assms have w: "w \<in> set (split_from [] (py_lower (encode_ascii_ignore (nfkd (py_str t)))))"
    by (simp add: norm_words_def py_split_def)
  from split_from_words [OF _ w] show "w \<noteq> []" and "\<forall>c \<in> set w. \<not> py_isspace c"
    by simp_all
  from split_from_chars [OF w]
  have "set w \<subseteq> lower_char ` {c. c < 128}"
    by (auto simp: py_lower_def encode_ascii_ignore_def)
  then show "\<forall>c \<in> set w. c < 128 \<and> lower_char c = c"
    by (auto simp: lower_char_idem lower_char_ascii)
qed

lemma normalize_text_chars:
  assumes "c \<in> set (normalize_text nfkd x)"
  shows "c < 128" and "lower_char c = c" and "py_isspace c \<longrightarrow> c = 32"
proof -
  from assms obtain t where x: "x = Some t"
    by (cases x) (auto simp: normalize_text_def)
  from assms have "c \<in> set [32] \<union> \<Union> (set ` set (norm_words nfkd t))"
    using join_chars [of "[32]" "norm_words nfkd t"] by (auto simp: x normalize_text_Some)
  then consider "c = 32" | w where "w \<in> set (norm_words nfkd t)" "c \<in> set w"
    by auto
  then have "c < 128 \<and> lower_char c = c \<and> (py_isspace c \<longrightarrow> c = 32)"
  proof cases
    case 1
    then show ?thesis by (simp add: lower_char_def)
  next
    case 2
    with norm_words_word [OF 2(1)] show ?thesis by auto
  qed
  then show "c < 128" and "lower_char c = c" and "py_isspace c \<longrightarrow> c = 32" by simp_all
qed

lemma map_lower_fixed: "\<forall>c \<in> set s. lower_char c = c \<Longrightarrow> py_lower s = s"
  by (simp add: py_lower_def map_idI)

lemma encode_ascii_fixed: "\<forall>c \<in> set s. c < 128 \<Longrightarrow> encode_ascii_ignore s = s"
  by (simp add: encode_ascii_ignore_def)

lemma normalize_text_idem:
  assumes "nfkd_fixes_ascii nfkd"
  shows "normalize_text nfkd (Some (Str (normalize_text nfkd x))) = normalize_text nfkd x"
proof (cases x)
  case None
  have "is_ascii []" by (simp add: is_ascii_def)
  with assms have "nfkd [] = []" by (simp add: nfkd_fixes_ascii_def)
  then show ?thesis
    by (simp add: None normalize_text_def encode_ascii_ignore_def py_lower_def py_split_def)
next
  case (Some t)
  let ?r = "normalize_text nfkd (Some t)"
  have asc: "\<forall>c \<in> set ?r. c < 128" and low: "\<forall>c \<in> set ?r. lower_char c = c"
    using normalize_text_chars by blast+
  from asc assms have "nfkd ?r = ?r"
    by (simp add: nfkd_fixes_ascii_def is_ascii_def)
  moreover have "split_from [] ?r = norm_words nfkd t"
    unfolding normalize_text_Some using norm_words_word
    by (intro split_join_words) blast
  ultimately have "norm_words nfkd (Str ?r) = norm_words nfkd t"
    by (simp add: norm_words_def py_split_def encode_ascii_fixed [OF asc] map_lower_fixed [OF low])
  then show ?thesis
    by (simp add: Some normalize_text_Some)
qed

lemma starts_with_iff: "starts_with a b \<longleftrightarrow> (\<exists>s. b = a @ s)"
  by (induction a b rule: starts_with.induct) auto

lemma py_in_iff: "py_in a b \<longleftrightarrow> is_substring a b"
proof (induction b)
  case Nil
  then show ?case by (auto simp: is_substring_def)
next
  case (Cons y b)
  have "is_substring a (y # b) \<longleftrightarrow> (\<exists>s. y # b = a @ s) \<or> is_substring a b"
    unfolding is_substring_def by (auto simp: Cons_eq_append_conv)
  with Cons show ?case by (simp add: starts_with_iff)
qed

lemma no_space_no_double: "32 \<notin> set b \<Longrightarrow> \<not> py_in [32, 32] b"
  by (induction b) auto

lemma no_double_append:
  assumes "32 \<notin> set u" "t \<noteq> []" "hd t \<noteq> 32" "\<not> py_in [32, 32] t"
  shows "\<not> py_in [32, 32] (u @ 32 # t)"
  using assms by (induction u) (auto simp: neq_Nil_conv)

lemma join_words_shape:
  assumes "\<forall>w \<in> set ws. w \<noteq> [] \<and> (\<forall>c \<in> set w. \<not> py_isspace c)" "ws \<noteq> []"
  shows "py_join [32] ws \<noteq> [] \<and> \<not> py_isspace (hd (py_join [32] ws))
           \<and> \<not> py_isspace (last (py_join [32] ws)) \<and> \<not> py_in [32, 32] (py_join [32] ws)"
  using assms
proof (induction "[32::nat]" ws rule: py_join.induct)
  case 1
  then show ?case by simp
next
  case (2 w)
  then have "32 \<notin> set w" using space_is_space by auto
  with 2 show ?case by (simp add: no_space_no_double)
next
  case (3 w v ws)
  let ?t = "py_join [32] (v # ws)"
  from 3 have t: "?t \<noteq> []" "\<not> py_isspace (hd ?t)" "\<not> py_isspace (last ?t)" "\<not> py_in [32, 32] ?t"
    by simp_all
  from 3 have w: "w \<noteq> []" "\<forall>c \<in> set w. \<not> py_isspace c" by simp_all
  then have w32: "32 \<notin> set w" using space_is_space by auto
  from t have "hd ?t \<noteq> 32" using space_is_space by auto
  with w32 t have "\<not> py_in [32, 32] (w @ 32 # ?t)" by (intro no_double_append)
  moreover have "hd (w @ 32 # ?t) = hd w" using w by simp
  moreover have "last (w @ 32 # ?t) = last ?t" using t by simp
  ultimately show ?case using w t by simp
qed

lemma strip_trimmed:
  assumes "s \<noteq> []" "\<not> py_isspace (hd s)" "\<not> py_isspace (last s)"
  shows "py_strip s = s"
proof -
  from assms have "dropWhile py_isspace s = s" by (cases s) simp_all
  moreover from assms have "dropWhile py_isspace (rev s) = rev s"
    by (cases "rev s") (simp_all add: last_rev [symmetric] del: last_rev)
  ultimately show ?thesis by (simp add: py_strip_def)
qed

lemma normalize_text_shape:
  "\<not> py_in [32, 32] (normalize_text nfkd x)"
  "py_strip (normalize_text nfkd x) = normalize_text nfkd x"
proof -
  have "\<not> py_in [32, 32] (normalize_text nfkd x)
          \<and> py_strip (normalize_text nfkd x) = normalize_text nfkd x"
  proof (cases x)
    case None
    then show ?thesis by (simp add: normalize_text_def py_strip_def)
  next
    case (Some t)
    show ?thesis
    proof (cases "norm_words nfkd t = []")
      case True
      then show ?thesis by (simp add: Some normalize_text_Some py_strip_def)
    next
      case False
      have "\<forall>w \<in> set (norm_words nfkd t). w \<noteq> [] \<and> (\<forall>c \<in> set w. \<not> py_isspace c)"
        using norm_words_word by blast
      from join_words_shape [OF this False] show ?thesis
        by (simp add: Some normalize_text_Some strip_trimmed)
    qed
  qed
  then show "\<not> py_in [32, 32] (normalize_text nfkd x)"
    and "py_strip (normalize_text nfkd x) = normalize_text nfkd x" by simp_all
qed

lemma nfkd_sample_fixes_ascii: "nfkd_fixes_ascii nfkd_sample"
proof -
  have "is_ascii s \<Longrightarrow> concat (map nfkd_char s) = s" for s
    by (induction s) (auto simp: is_ascii_def)
  then show ?thesis by (simp add: nfkd_fixes_ascii_def nfkd_sample_def)
qed

lemmas eval_text = normalize_text_def ustr_def nfkd_sample_def encode_ascii_ignore_def
  py_lower_def lower_char_def py_split_def py_isspace_def py_strip_def

text \<open>
  Claim C5. The text normalizer is idempotent and ASCII-only: normalizing a normalized
  text changes nothing (the library's NFKD leaving ASCII strings as they are), every
  code point of a result is below 128, none is an upper-case letter, the only white
  space in it is the single space, never twice in a row, and none at either end;
  \<open>None\<close> gives the empty string.
\<close>

theorem normalize_text_idempotent_ascii:
  "(nfkd_fixes_ascii nfkd \<longrightarrow>
      normalize_text nfkd (Some (Str (normalize_text nfkd x))) = normalize_text nfkd x)
   \<and> (\<forall>c \<in> set (normalize_text nfkd x).
        c < 128 \<and> \<not> (65 \<le> c \<and> c \<le> 90) \<and> (py_isspace c \<longrightarrow> c = 32))
   \<and> normalize_text nfkd None = []
   \<and> \<not> is_substring [32, 32] (normalize_text nfkd x)
   \<and> py_strip (normalize_text nfkd x) = normalize_text nfkd x"
proof -
  have "\<not> (65 \<le> c \<and> c \<le> 90)" if "c \<in> set (normalize_text nfkd x)" for c
    using normalize_text_chars(2) [OF that] lower_char_not_upper [of c] by simp
  then show ?thesis
    using normalize_text_idem [of nfkd x] normalize_text_chars(1,3) [of _ nfkd x]
      normalize_text_shape [of nfkd x]
    by (simp add: py_in_iff [symmetric] normalize_text_def)
qed

theorem normalize_text_idempotent_ascii_witness:
  "normalize_text nfkd_sample
     (Some (Str (normalize_text nfkd_sample
        (Some (Str ([32, 32, 68, 237, 97, 32, 9, 32] @ ustr ''Concepto '' @ [160, 9]))))))
     = ustr ''dia concepto''
   \<and> normalize_text nfkd_sample
        (Some (Str ([32, 32, 68, 237, 97, 32, 9, 32] @ ustr ''Concepto '' @ [160, 9])))
     = ustr ''dia concepto''
   \<and> py_strip (ustr ''dia concepto'') = ustr ''dia concepto''"
  using normalize_text_idempotent_ascii [of nfkd_sample
      "Some (Str ([32, 32, 68, 237, 97, 32, 9, 32] @ ustr ''Concepto '' @ [160, 9]))"]
    nfkd_sample_fixes_ascii
  by (simp add: eval_text)

section \<open>The row merger: proofs\<close>

lemma same_outside_refl: "same_outside k r r"
  by (simp add: same_outside_def)

lemma same_outside_trans: "same_outside k a b \<Longrightarrow> same_outside k b c \<Longrightarrow> same_outside k a c"
  by (simp add: same_outside_def)

lemma same_outside_update: "same_outside k r (r[k := v])"
  by (simp add: same_outside_def)

lemma same_outside_rows_update:
  "list_all2 (same_outside k) P (P[i := (P ! i)[k := v]])"
proof -
  have "same_outside k (P ! n) (P[i := (P ! i)[k := v]] ! n)" if "n < length P" for n
    using that by (cases "n = i") (simp_all add: same_outside_refl same_outside_update)
  then show ?thesis by (simp add: list_all2_conv_all_nth)
qed

lemma same_outside_rows_refl: "list_all2 (same_outside k) P P"
  by (simp add: list_all2_conv_all_nth same_outside_refl)

lemma same_outside_rows_trans:
  "list_all2 (same_outside k) A B \<Longrightarrow> list_all2 (same_outside k) B C
     \<Longrightarrow> list_all2 (same_outside k) A C"
  by (rule list_all2_trans [of "same_outside k" "same_outside k"]) (auto intro: same_outside_trans)

lemma merge_rows_frame:
  "merge_rows f cols rs P cur = Inr out
     \<Longrightarrow> list_all2 (same_outside (index_of (ustr ''concepto'') cols))
           (P @ filter (starts_transaction f cols) rs) out"
proof (induction rs arbitrary: P cur)
  case Nil
  then show ?case by (simp add: same_outside_rows_refl)
next
  case (Cons row rest)
  let ?k = "index_of (ustr ''concepto'') cols"
  let ?F = "filter (starts_transaction f cols) rest"
  from Cons.prems obtain d where d: "getitem cols row (ustr ''dia'') = Scalar d"
    by (cases "getitem cols row (ustr ''dia'')") simp_all
  show ?case
  proof (cases "f d")
    case True
    with Cons.prems d have "merge_rows f cols rest (P @ [row]) (int (length (P @ [row])) - 1) = Inr out"
      by simp
    from Cons.IH [OF this] True d show ?thesis
      by (simp add: starts_transaction_def)
  next
    case False
    then have skip: "filter (starts_transaction f cols) (row # rest) = ?F"
      by (simp add: starts_transaction_def d)
    from Cons.prems d False
    consider (same) "merge_rows f cols rest P cur = Inr out"
      | (upd) s c where "merge_rows f cols rest
            (P[nat cur := setitem cols (P ! nat cur) (ustr ''concepto'') (Str (s @ ustr '' '' @ py_str c))])
            cur = Inr out"
      by (auto split: if_splits item.splits cell.splits)
    then show ?thesis
    proof cases
      case same
      from Cons.IH [OF this] skip show ?thesis by simp
    next
      case upd
      let ?P' = "P[nat cur := (P ! nat cur)[?k := Str (s @ ustr '' '' @ py_str c)]]"
      from Cons.IH [OF upd [unfolded setitem_def]]
      have 1: "list_all2 (same_outside ?k) (?P' @ ?F) out" .
      have "list_all2 (same_outside ?k) (P @ ?F) (?P' @ ?F)"
        by (intro list_all2_appendI same_outside_rows_update same_outside_rows_refl)
      from same_outside_rows_trans [OF this 1] skip show ?thesis by simp
    qed
  qed
qed

lemmas eval_merge = ustr_def getitem_def setitem_def to_numeric_sample_def
  merge_concepto_lines_def py_strip_def py_isspace_def empty_frame_def

text \<open>
  Claim C7. Frame condition of the merger: on a table with a \<open>dia\<close> and a \<open>concepto\<close>
  column, the rows of the returned table are, in order, the input rows that start a
  transaction (numeric \<open>dia\<close>), each with the same number of cells and the same cell
  at every column position other than that of \<open>concepto\<close>; the returned table keeps
  the column labels.
\<close>

theorem merge_frame:
  assumes "ustr ''dia'' \<in> set (columns df)" and "ustr ''concepto'' \<in> set (columns df)"
    and "merge_concepto_lines to_numeric_notna df = Inr out"
  shows "list_all2 (same_outside (index_of (ustr ''concepto'') (columns df)))
           (filter (starts_transaction to_numeric_notna (columns df)) (rows df)) (rows out)
         \<and> (rows out \<noteq> [] \<longrightarrow> columns out = columns df)"
proof -
  from assms obtain processed
    where m: "merge_rows to_numeric_notna (columns df) (rows df) [] (- 1) = Inr processed"
      and out: "processed = [] \<and> out = empty_frame
                \<or> out = \<lparr>columns = columns df, rows = processed\<rparr>"
    by (auto simp: merge_concepto_lines_def split: sum.splits if_splits)
  from out have "rows out = processed \<and> (rows out \<noteq> [] \<longrightarrow> columns out = columns df)"
    by (auto simp: empty_frame_def)
  with merge_rows_frame [OF m] show ?thesis by simp
qed

theorem merge_frame_witness:
  "merge_concepto_lines to_numeric_sample
     \<lparr>columns = [ustr ''dia'', ustr ''concepto'', ustr ''cargos''],
      rows = [[Str (ustr ''1''), Str (ustr ''PAGO A''), Str (ustr ''10.00'')],
              [Str [], Str (ustr ''PROVEEDOR X''), Str []],
              [Str (ustr ''2''), Str (ustr ''DEPOSITO''), Str []]]\<rparr>
   = Inr \<lparr>columns = [ustr ''dia'', ustr ''concepto'', ustr ''cargos''],
          rows = [[Str (ustr ''1''), Str (ustr ''PAGO A PROVEEDOR X''), Str (ustr ''10.00'')],
                  [Str (ustr ''2''), Str (ustr ''DEPOSITO''), Str []]]\<rparr>
   \<and> list_all2 (same_outside 1)
        [[Str (ustr ''1''), Str (ustr ''PAGO A''), Str (ustr ''10.00'')],
         [Str (ustr ''2''), Str (ustr ''DEPOSITO''), Str []]]
        [[Str (ustr ''1''), Str (ustr ''PAGO A PROVEEDOR X''), Str (ustr ''10.00'')],
         [Str (ustr ''2''), Str (ustr ''DEPOSITO''), Str []]]"
proof -
  let ?df = "\<lparr>columns = [ustr ''dia'', ustr ''concepto'', ustr ''cargos''],
      rows = [[Str (ustr ''1''), Str (ustr ''PAGO A''), Str (ustr ''10.00'')],
              [Str [], Str (ustr ''PROVEEDOR X''), Str []],
              [Str (ustr ''2''), Str (ustr ''DEPOSITO''), Str []]]\<rparr>"
  let ?out = "\<lparr>columns = [ustr ''dia'', ustr ''concepto'', ustr ''cargos''],
          rows = [[Str (ustr ''1''), Str (ustr ''PAGO A PROVEEDOR X''), Str (ustr ''10.00'')],
                  [Str (ustr ''2''), Str (ustr ''DEPOSITO''), Str []]]\<rparr>"
  have 1: "ustr ''dia'' \<in> set (columns ?df)" by simp
  have 2: "ustr ''concepto'' \<in> set (columns ?df)" by simp
  have 3: "merge_concepto_lines to_numeric_sample ?df = Inr ?out"
    by (simp add: eval_merge)
  from merge_frame [OF 1 2 3] 3 show ?thesis
    by (simp add: ustr_def starts_transaction_def getitem_def to_numeric_sample_def)
qed

text \<open>
  Claim C1, at an input where the code does not do what the claim says. The table has
  the columns \<open>dia\<close> and \<open>concepto\<close>; its first row has a numeric \<open>dia\<close> and no
  \<open>concepto\<close> (NaN, as \<open>pd.concat\<close> leaves it for a table without that column), its
  second row is a continuation with the text \<open>X\<close>. The claim has the text appended to
  the transaction; the merger raises \<open>TypeError\<close> and returns no table.
\<close>

theorem merge_nan_concepto_raises:
  assumes "to_numeric_notna (Str (ustr ''5''))" and "\<not> to_numeric_notna (Str [])"
  shows "merge_concepto_lines to_numeric_notna
           \<lparr>columns = [ustr ''dia'', ustr ''concepto''],
            rows = [[Str (ustr ''5''), NaN], [Str [], Str (ustr ''X'')]]\<rparr>
         = Inl TypeError"
  using assms by (simp add: ustr_def getitem_def merge_concepto_lines_def py_strip_def py_isspace_def)

theorem merge_nan_concepto_raises_witness:
  "to_numeric_sample (Str (ustr ''5'')) \<and> \<not> to_numeric_sample (Str [])
   \<and> merge_concepto_lines to_numeric_sample
        \<lparr>columns = [ustr ''dia'', ustr ''concepto''],
         rows = [[Str (ustr ''5''), NaN], [Str [], Str (ustr ''X'')]]\<rparr>
      = Inl TypeError"
proof -
  have 1: "to_numeric_sample (Str (ustr ''5''))" by (simp add: to_numeric_sample_def ustr_def)
  have 2: "\<not> to_numeric_sample (Str [])" by (simp add: to_numeric_sample_def)
  from merge_nan_concepto_raises [OF 1 2] 1 2 show ?thesis by simp
qed

text \<open>A repeated \<open>dia\<close> label stops the merger at the first row.\<close>

lemma merge_repeated_dia_raises:
  "merge_concepto_lines to_numeric_notna
     \<lparr>columns = [ustr ''dia'', ustr ''dia'', ustr ''concepto''],
      rows = [[Str (ustr ''5''), Str (ustr ''5''), Str (ustr ''PAGO'')]]\<rparr>
   = Inl ValueError"
  by (simp add: ustr_def getitem_def merge_concepto_lines_def)

lemma index_of_less: "x \<in> set xs \<Longrightarrow> index_of x xs < length xs"
  by (induction xs) auto

lemma count_one_member: "count_list xs x = 1 \<Longrightarrow> x \<in> set xs"
  using count_notin [of x xs] by auto

lemma getitem_unique: "count_list cols label = 1 \<Longrightarrow> getitem cols row label = Scalar (row ! index_of label cols)"
  by (simp add: getitem_def)

lemma update_last: "P \<noteq> [] \<Longrightarrow> P[length P - 1 := x] = butlast P @ [x]"
  by (induction P rule: rev_induct) (simp_all add: list_update_append)

lemma nth_last: "P \<noteq> [] \<Longrightarrow> P ! (length P - 1) = last P"
  by (simp add: last_conv_nth)

text \<open>
  The loop against the merger of the specification: with \<open>dia\<close> and \<open>concepto\<close> each
  labelling one column, the loop raises nothing and computes the same rows, the
  current transaction being the last output row.
\<close>

lemma merge_rows_by_spec:
  assumes "count_list cols (ustr ''dia'') = 1" and "count_list cols (ustr ''concepto'') = 1"
  shows "mergeable_rows f cols rs \<Longrightarrow> mergeable_rows f cols P \<Longrightarrow>
           (\<forall>row \<in> set P. \<exists>s. row ! index_of (ustr ''concepto'') cols = Str s) \<Longrightarrow>
           merge_rows f cols rs P (int (length P) - 1) = Inr (merge_by_spec f cols rs P)"
proof (induction rs arbitrary: P)
  case Nil
  then show ?case by simp
next
  case (Cons row rest)
  let ?k = "index_of (ustr ''concepto'') cols"
  let ?d = "index_of (ustr ''dia'') cols"
  have k: "?k < length cols" using assms(2) by (intro index_of_less count_one_member)
  from Cons.prems(1) have row: "length row = length cols"
    "f (row ! ?d) \<longrightarrow> (\<exists>s. row ! ?k = Str s)" and rest: "mergeable_rows f cols rest"
    by (simp_all add: mergeable_rows_def)
  note gi = getitem_unique [OF assms(1)] getitem_unique [OF assms(2)]
  show ?case
  proof (cases "f (row ! ?d)")
    case True
    with row have "mergeable_rows f cols (P @ [row])"
      "\<forall>r \<in> set (P @ [row]). \<exists>s. r ! ?k = Str s"
      using Cons.prems(2,3) by (auto simp: mergeable_rows_def)
    from Cons.IH [OF rest this] True show ?thesis
      by (simp add: gi)
  next
    case False
    show ?thesis
    proof (cases "P \<noteq> [] \<and> pd_notna (row ! ?k) \<and> py_strip (py_str (row ! ?k)) \<noteq> []")
      case skip: False
      from Cons.IH [OF rest Cons.prems(2,3)] False skip show ?thesis
        by (auto simp: gi)
    next
      case app: True
      then have ne: "P \<noteq> []" by simp
      then have cur: "int (length P) - 1 \<noteq> - 1" "nat (int (length P) - 1) = length P - 1"
        by (simp_all add: nat_diff_distrib')
      from ne Cons.prems(3) obtain s where s: "last P ! ?k = Str s"
        using last_in_set by blast
      let ?new = "(last P)[?k := Str (s @ [32] @ py_str (row ! ?k))]"
      let ?P' = "butlast P @ [?new]"
      from ne Cons.prems(2) have lastlen: "length (last P) = length cols"
        by (simp add: mergeable_rows_def)
      have inP: "r \<in> set (butlast P) \<Longrightarrow> r \<in> set P" for r by (rule in_set_butlastD)
      have m: "mergeable_rows f cols ?P'"
        using Cons.prems(2) lastlen k inP by (auto simp: mergeable_rows_def)
      have t: "\<forall>r \<in> set ?P'. \<exists>s. r ! ?k = Str s"
        using Cons.prems(3) lastlen k inP by auto
      have len: "length ?P' = length P" using ne by simp
      from Cons.IH [OF rest m t] have
        "merge_rows f cols rest ?P' (int (length P) - 1) = Inr (merge_by_spec f cols rest ?P')"
        by (simp only: len)
      moreover have "P ! nat (int (length P) - 1) = last P"
        using nth_last [OF ne] by (simp only: cur)
      moreover have "P[nat (int (length P) - 1) := x] = butlast P @ [x]" for x
        using update_last [OF ne, of x] by (simp only: cur)
      ultimately show ?thesis using False app s cur(1)
        by (simp add: gi setitem_def ustr_space Let_def)
    qed
  qed
qed


lemma distinct_count_one: "distinct xs \<Longrightarrow> x \<in> set xs \<Longrightarrow> count_list xs x = 1"
  by (induction xs) auto

text \<open>
  Where the labels are distinct and every transaction row has a text under
  \<open>concepto\<close>, the merger returns what the specification describes: the merged rows
  under the same labels, or the empty frame when no row starts a transaction.
\<close>

lemma merge_concepto_lines_by_spec:
  assumes "distinct (columns df)" and "ustr ''dia'' \<in> set (columns df)"
    and "ustr ''concepto'' \<in> set (columns df)"
    and "mergeable_rows to_numeric_notna (columns df) (rows df)"
  shows "merge_concepto_lines to_numeric_notna df =
           Inr (if merge_by_spec to_numeric_notna (columns df) (rows df) [] = [] then empty_frame
                else \<lparr>columns = columns df,
                      rows = merge_by_spec to_numeric_notna (columns df) (rows df) []\<rparr>)"
proof -
  have "mergeable_rows to_numeric_notna (columns df) []" by (simp add: mergeable_rows_def)
  from merge_rows_by_spec [OF distinct_count_one [OF assms(1,2)]
      distinct_count_one [OF assms(1,3)] assms(4) this]
  have "merge_rows to_numeric_notna (columns df) (rows df) [] (- 1)
          = Inr (merge_by_spec to_numeric_notna (columns df) (rows df) [])"
    by simp
  with assms(1,2,3) show ?thesis by (simp add: merge_concepto_lines_def)
qed

text \<open>The examples of the specification: a continuation is merged, an orphan is dropped.\<close>

lemma merge_examples:
  "merge_concepto_lines to_numeric_sample
     \<lparr>columns = [ustr ''dia'', ustr ''concepto''],
      rows = [[Str (ustr ''1''), Str (ustr ''PAGO A'')],
              [Str [], Str (ustr ''PROVEEDOR X'')],
              [Str (ustr ''2''), Str (ustr ''DEPOSITO'')]]\<rparr>
   = Inr \<lparr>columns = [ustr ''dia'', ustr ''concepto''],
          rows = [[Str (ustr ''1''), Str (ustr ''PAGO A PROVEEDOR X'')],
                  [Str (ustr ''2''), Str (ustr ''DEPOSITO'')]]\<rparr>"
  "merge_concepto_lines to_numeric_sample
     \<lparr>columns = [ustr ''dia'', ustr ''concepto''],
      rows = [[Str [], Str (ustr ''ORPHAN'')], [Str (ustr ''1''), Str (ustr ''PAGO'')]]\<rparr>
   = Inr \<lparr>columns = [ustr ''dia'', ustr ''concepto''],
          rows = [[Str (ustr ''1''), Str (ustr ''PAGO'')]]\<rparr>"
  "merge_concepto_lines to_numeric_sample \<lparr>columns = [ustr ''dia'', ustr ''concepto''], rows = []\<rparr>
   = Inr empty_frame"
  by (simp_all add: eval_merge)

section \<open>The two scripts agree\<close>

lemma debug_merge_rows_eq:
  "debug_merge_rows f cols rs processed cur = merge_rows f cols rs processed cur"
proof (induction rs arbitrary: processed cur)
  case Nil
  show ?case by simp
next
  case (Cons row rest)
  show ?case
    by (simp only: debug_merge_rows.simps merge_rows.simps Cons.IH)
qed

text \<open>
  Claim C8. The two scripts implement the same core logic: on every table
  \<open>merge_concepto_lines\<close> of \<open>debug.py\<close> returns what \<open>merge_concepto_lines\<close> of
  \<open>process_statements.py\<close> returns (the same frame, or the same exception), and on
  every value the two \<open>normalize_text\<close> return the same string.
\<close>

theorem debug_same_core_logic:
  "debug_merge_concepto_lines to_numeric_notna df = merge_concepto_lines to_numeric_notna df
   \<and> debug_normalize_text nfkd text = normalize_text nfkd text"
  by (simp only: debug_merge_concepto_lines_def merge_concepto_lines_def
        debug_merge_rows_eq debug_normalize_text_def normalize_text_def)

theorem debug_same_core_logic_witness:
  "debug_merge_concepto_lines to_numeric_sample
     \<lparr>columns = [ustr ''dia'', ustr ''concepto''],
      rows = [[Str (ustr ''1''), Str (ustr ''PAGO A'')],
              [Str [], Str (ustr ''PROVEEDOR X'')]]\<rparr>
   = Inr \<lparr>columns = [ustr ''dia'', ustr ''concepto''],
          rows = [[Str (ustr ''1''), Str (ustr ''PAGO A PROVEEDOR X'')]]\<rparr>
   \<and> debug_normalize_text nfkd_sample (Some (Str ([83, 97, 108, 100, 111, 32, 32, 77, 237, 110, 105, 109, 111])))
     = ustr ''saldo minimo''"
  using debug_same_core_logic [of to_numeric_sample
      "\<lparr>columns = [ustr ''dia'', ustr ''concepto''],
        rows = [[Str (ustr ''1''), Str (ustr ''PAGO A'')],
                [Str [], Str (ustr ''PROVEEDOR X'')]]\<rparr>"
      nfkd_sample "Some (Str ([83, 97, 108, 100, 111, 32, 32, 77, 237, 110, 105, 109, 111]))"]
  by (simp add: eval_merge eval_text)

section \<open>The rulebook matcher: proofs\<close>

lemma kw_test_matches:
  "kw_test nfkd (normalize_text nfkd (Some concepto)) r \<longleftrightarrow> rule_matches nfkd concepto r"
  by (simp add: kw_test_def rule_matches_def list_all_iff py_in_iff)

lemma apply_rules_loop_none:
  "\<forall>r \<in> set rules. \<not> kw_test nfkd n r \<Longrightarrow> apply_rules_loop nfkd concepto n rules = concepto"
  by (induction rules) (simp_all add: kw_test_def)

lemma apply_rules_loop_first:
  "i < length rules \<Longrightarrow> kw_test nfkd n (rules ! i) \<Longrightarrow> \<forall>j<i. \<not> kw_test nfkd n (rules ! j)
     \<Longrightarrow> apply_rules_loop nfkd concepto n rules = Str (py_str (Output_Template (rules ! i)))"
proof (induction rules arbitrary: i)
  case Nil
  then show ?case by simp
next
  case (Cons r rest)
  show ?case
  proof (cases i)
    case 0
    with Cons.prems show ?thesis by (simp add: kw_test_def)
  next
    case (Suc k)
    with Cons.prems have "\<not> kw_test nfkd n r" by auto
    moreover from Suc Cons.prems have "k < length rest" "kw_test nfkd n (rest ! k)"
      "\<forall>j<k. \<not> kw_test nfkd n (rest ! j)" by auto
    ultimately show ?thesis using Cons.IH [of k] Suc by (simp add: kw_test_def)
  qed
qed

lemma apply_rules_none:
  "\<forall>r \<in> set rules. \<not> rule_matches nfkd concepto r \<Longrightarrow> apply_rules nfkd concepto rules = concepto"
  by (simp add: apply_rules_def apply_rules_loop_none kw_test_matches)

lemma apply_rules_first:
  "i < length rules \<Longrightarrow> rule_matches nfkd concepto (rules ! i)
     \<Longrightarrow> \<forall>j<i. \<not> rule_matches nfkd concepto (rules ! j)
     \<Longrightarrow> apply_rules nfkd concepto rules = Str (py_str (Output_Template (rules ! i)))"
  by (simp add: apply_rules_def apply_rules_loop_first kw_test_matches)

lemma first_match_priority:
  assumes "sorted (map Priority rules)" "i < length rules"
    "\<forall>j<i. \<not> rule_matches nfkd concepto (rules ! j)"
    "r \<in> set rules" "Priority r < Priority (rules ! i)"
  shows "\<not> rule_matches nfkd concepto r"
proof -
  from assms(4) obtain j where j: "j < length rules" "r = rules ! j"
    by (auto simp: in_set_conv_nth)
  have "j < i"
  proof (rule ccontr)
    assume "\<not> j < i"
    then have "i \<le> j" by simp
    with assms(1) j(1) have "map Priority rules ! i \<le> map Priority rules ! j"
      by (intro sorted_nth_mono) simp_all
    with assms(2,5) j show False by simp
  qed
  with assms(3) j show ?thesis by simp
qed

lemmas eval_rules = apply_rules_def rule_keywords_def py_split_sep_def

text \<open>The splitting of the code gives the one list of comma-separated keywords.\<close>

lemma split_sep_from_nonempty: "split_sep_from sep cur s \<noteq> []"
  by (induction s arbitrary: cur) simp_all

lemma comma_joined_Cons: "kws \<noteq> [] \<Longrightarrow> comma_joined (kw # kws) = kw @ [44] @ comma_joined kws"
  by (cases kws) simp_all

lemma comma_joined_split: "comma_joined (split_sep_from 44 cur s) = cur @ s"
  by (induction s arbitrary: cur) (simp_all add: comma_joined_Cons split_sep_from_nonempty)

lemma split_sep_from_free:
  "44 \<notin> set cur \<Longrightarrow> kw \<in> set (split_sep_from 44 cur s) \<Longrightarrow> 44 \<notin> set kw"
proof (induction s arbitrary: cur)
  case Nil
  then show ?case by simp
next
  case (Cons c cs)
  show ?case
  proof (cases "c = 44")
    case True
    with Cons.prems have "kw = cur \<or> kw \<in> set (split_sep_from 44 [] cs)" by simp
    then show ?thesis
    proof
      assume "kw = cur"
      with Cons.prems(1) show ?thesis by simp
    next
      assume "kw \<in> set (split_sep_from 44 [] cs)"
      with Cons.IH [of "[]"] show ?thesis by simp
    qed
  next
    case False
    with Cons.prems have "kw \<in> set (split_sep_from 44 (cur @ [c]) cs)" "44 \<notin> set (cur @ [c])"
      by simp_all
    with Cons.IH [of "cur @ [c]"] show ?thesis by simp
  qed
qed

lemma split_sep_from_no_comma:
  "44 \<notin> set kw \<Longrightarrow> split_sep_from 44 cur (kw @ rest) = split_sep_from 44 (cur @ kw) rest"
  by (induction kw arbitrary: cur) auto

lemma split_comma_joined:
  "kws \<noteq> [] \<Longrightarrow> \<forall>kw \<in> set kws. 44 \<notin> set kw \<Longrightarrow> split_sep_from 44 [] (comma_joined kws) = kws"
proof (induction kws rule: comma_joined.induct)
  case 1
  then show ?case by simp
next
  case (2 kw)
  then have "split_sep_from 44 [] (kw @ []) = split_sep_from 44 ([] @ kw) []"
    by (intro split_sep_from_no_comma) simp
  then show ?case by simp
next
  case (3 kw kw' kws)
  then have "split_sep_from 44 [] (kw @ ([44] @ comma_joined (kw' # kws)))
      = split_sep_from 44 ([] @ kw) ([44] @ comma_joined (kw' # kws))"
    by (intro split_sep_from_no_comma) simp
  with 3 show ?case by simp
qed

lemma splits_at_commas_iff: "splits_at_commas text kws \<longleftrightarrow> kws = py_split_sep 44 text"
proof
  assume "splits_at_commas text kws"
  then show "kws = py_split_sep 44 text"
    using split_comma_joined [of kws] by (auto simp: splits_at_commas_def py_split_sep_def)
next
  assume "kws = py_split_sep 44 text"
  then show "splits_at_commas text kws"
    using split_sep_from_free [of "[]" _ "text"]
    by (auto simp: splits_at_commas_def py_split_sep_def split_sep_from_nonempty comma_joined_split)
qed

lemma rule_keywords_text: "rule_keywords r = py_split_sep 44 (keywords_text r)"
  by (simp add: rule_keywords_def keywords_text_def split: option.splits cell.splits)

lemma all_keywords_found_iff:
  "all_keywords_found nfkd concepto r \<longleftrightarrow> rule_matches nfkd concepto r"
  by (simp add: all_keywords_found_def rule_matches_def splits_at_commas_iff rule_keywords_text)

lemma all_keywords_found_none:
  "\<forall>r \<in> set rules. \<not> all_keywords_found nfkd concepto r
     \<Longrightarrow> apply_rules nfkd concepto rules = concepto"
  by (simp add: all_keywords_found_iff apply_rules_none)

lemma all_keywords_found_first:
  "i < length rules \<Longrightarrow> all_keywords_found nfkd concepto (rules ! i)
     \<Longrightarrow> \<forall>j<i. \<not> all_keywords_found nfkd concepto (rules ! j)
     \<Longrightarrow> apply_rules nfkd concepto rules = Str (py_str (Output_Template (rules ! i)))"
  by (simp add: all_keywords_found_iff apply_rules_first)

lemma all_keywords_found_priority:
  "sorted (map Priority rules) \<Longrightarrow> i < length rules
     \<Longrightarrow> \<forall>j<i. \<not> all_keywords_found nfkd concepto (rules ! j)
     \<Longrightarrow> r \<in> set rules \<Longrightarrow> Priority r < Priority (rules ! i)
     \<Longrightarrow> \<not> all_keywords_found nfkd concepto r"
  using first_match_priority [of rules i nfkd concepto r]
  by (simp add: all_keywords_found_iff)

text \<open>
  Claim C2. Rule matching: the keywords of a rule are the pieces of its \<open>Keywords\<close>
  text between the commas, and there is one such list of pieces. A rule matches when
  every one of these keywords, normalized on its own, is a substring of the normalized
  concepto. The result of \<open>apply_rules\<close> is the template of the first rule of the
  sequence that matches, as \<open>str\<close> gives it (a template that is a string comes back
  unmodified); in a sequence sorted by priority no rule of a strictly lower priority
  number matches; and when no rule matches the result is the input concepto itself,
  not normalized.
\<close>

theorem apply_rules_first_match:
  "(\<exists>kws. splits_at_commas (keywords_text r) kws)
   \<and> (\<forall>kws kws'. splits_at_commas (keywords_text r) kws
          \<and> splits_at_commas (keywords_text r) kws' \<longrightarrow> kws = kws')
   \<and> ((\<forall>r \<in> set rules. \<not> all_keywords_found nfkd concepto r)
      \<longrightarrow> apply_rules nfkd concepto rules = concepto)
   \<and> (\<forall>i < length rules.
         all_keywords_found nfkd concepto (rules ! i)
         \<and> (\<forall>j<i. \<not> all_keywords_found nfkd concepto (rules ! j))
         \<longrightarrow> apply_rules nfkd concepto rules = Str (py_str (Output_Template (rules ! i)))
             \<and> (\<forall>t. Output_Template (rules ! i) = Str t
                    \<longrightarrow> apply_rules nfkd concepto rules = Str t)
             \<and> (sorted (map Priority rules)
                  \<longrightarrow> (\<forall>r \<in> set rules. Priority r < Priority (rules ! i)
                         \<longrightarrow> \<not> all_keywords_found nfkd concepto r)))"
proof (intro conjI allI impI ballI)
  show "\<exists>kws. splits_at_commas (keywords_text r) kws"
    by (simp add: splits_at_commas_iff)
next
  fix kws kws'
  assume "splits_at_commas (keywords_text r) kws \<and> splits_at_commas (keywords_text r) kws'"
  then show "kws = kws'" by (simp add: splits_at_commas_iff)
next
  assume "\<forall>r \<in> set rules. \<not> all_keywords_found nfkd concepto r"
  then show "apply_rules nfkd concepto rules = concepto" by (rule all_keywords_found_none)
next
  fix i
  assume i: "i < length rules"
    and m: "all_keywords_found nfkd concepto (rules ! i)
         \<and> (\<forall>j<i. \<not> all_keywords_found nfkd concepto (rules ! j))"
  then show res: "apply_rules nfkd concepto rules = Str (py_str (Output_Template (rules ! i)))"
    by (intro all_keywords_found_first) simp_all
  {
    fix t
    assume "Output_Template (rules ! i) = Str t"
    with res show "apply_rules nfkd concepto rules = Str t" by simp
  }
  {
    fix r'
    assume "sorted (map Priority rules)" and "r' \<in> set rules"
      and "Priority r' < Priority (rules ! i)"
    with i m show "\<not> all_keywords_found nfkd concepto r'"
      by (intro all_keywords_found_priority [of rules i nfkd concepto r']) simp_all
  }
qed

text \<open>The example of the specification: the more specific rule wins, and no match keeps the text.\<close>

lemma example_rules_eval:
  "apply_rules nfkd_sample (Str (ustr ''PAGO A PROVEEDOR X'')) example_rules = Str (ustr ''Pago a Proveedor'')"
  "apply_rules nfkd_sample (Str (ustr ''PAGO SERVICIO'')) example_rules = Str (ustr ''Pago Generico'')"
  "apply_rules nfkd_sample (Str (ustr ''DEPOSITO'')) example_rules = Str (ustr ''DEPOSITO'')"
  by (simp_all add: example_rules_def eval_rules eval_text)

lemmas eval_found = all_keywords_found_iff kw_test_matches [symmetric] kw_test_def
  example_rules_def rule_keywords_def py_split_sep_def

lemma example_rules_found:
  "all_keywords_found nfkd_sample (Str (ustr ''PAGO A PROVEEDOR X'')) (example_rules ! 0)"
  "\<forall>r \<in> set example_rules. \<not> all_keywords_found nfkd_sample (Str (ustr ''DEPOSITO'')) r"
  by (simp_all add: eval_found eval_text)

lemma example_rules_split:
  "splits_at_commas (keywords_text (example_rules ! 0)) [ustr ''pago'', ustr ''proveedor'']"
  by (simp add: splits_at_commas_def keywords_text_def example_rules_def ustr_def)

theorem apply_rules_first_match_witness:
  "splits_at_commas (keywords_text (example_rules ! 0)) [ustr ''pago'', ustr ''proveedor'']
   \<and> all_keywords_found nfkd_sample (Str (ustr ''PAGO A PROVEEDOR X'')) (example_rules ! 0)
   \<and> apply_rules nfkd_sample (Str (ustr ''PAGO A PROVEEDOR X'')) example_rules
        = Str (ustr ''Pago a Proveedor'')
   \<and> apply_rules nfkd_sample (Str (ustr ''DEPOSITO'')) example_rules = Str (ustr ''DEPOSITO'')"
proof -
  have l: "(0::nat) < length example_rules" by (simp add: example_rules_def)
  have f: "\<forall>j<(0::nat). \<not> all_keywords_found nfkd_sample (Str (ustr ''PAGO A PROVEEDOR X''))
             (example_rules ! j)"
    by simp
  from apply_rules_first_match [of _ example_rules nfkd_sample "Str (ustr ''PAGO A PROVEEDOR X'')"]
    l f example_rules_found(1)
  have "apply_rules nfkd_sample (Str (ustr ''PAGO A PROVEEDOR X'')) example_rules
      = Str (py_str (Output_Template (example_rules ! 0)))"
    by blast
  then have 1: "apply_rules nfkd_sample (Str (ustr ''PAGO A PROVEEDOR X'')) example_rules
      = Str (ustr ''Pago a Proveedor'')"
    by (simp add: example_rules_def)
  from apply_rules_first_match [of _ example_rules nfkd_sample "Str (ustr ''DEPOSITO'')"]
    example_rules_found(2)
  have 2: "apply_rules nfkd_sample (Str (ustr ''DEPOSITO'')) example_rules = Str (ustr ''DEPOSITO'')"
    by blast
  from 1 2 example_rules_split example_rules_found(1) show ?thesis by simp
qed

lemma is_substring_Nil: "is_substring [] b"
  unfolding is_substring_def by (rule exI [of _ "[]"]) simp

lemma split_empty_keywords: "Keywords r = Some (Str []) \<Longrightarrow> rule_keywords r = [[]]"
  by (simp add: rule_keywords_def py_split_sep_def)

lemma normalize_text_empty: "nfkd_fixes_ascii nfkd \<Longrightarrow> normalize_text nfkd (Some (Str [])) = []"
  using normalize_text_idem [of nfkd None] by (simp add: normalize_text_def)

lemma empty_keywords_match:
  "nfkd_fixes_ascii nfkd \<Longrightarrow> Keywords r = Some (Str []) \<Longrightarrow> rule_matches nfkd concepto r"
  by (simp add: rule_matches_def split_empty_keywords normalize_text_empty is_substring_Nil)

text \<open>
  Claim C9. A rule whose \<open>Keywords\<close> string is empty splits into the single empty
  keyword and matches every concepto (the normalized empty string being empty, for an
  NFKD that leaves ASCII strings as they are). So with such a rule at position \<open>k\<close>,
  \<open>apply_rules\<close> returns the template of the first matching rule, which is that rule
  or an earlier one: the fall-through to the original concepto is not taken.
\<close>

theorem empty_keywords_rule_catches_all:
  assumes "nfkd_fixes_ascii nfkd" and "k < length rules" and "Keywords (rules ! k) = Some (Str [])"
  shows "rule_keywords (rules ! k) = [[]]
         \<and> rule_matches nfkd concepto (rules ! k)
         \<and> (\<exists>i\<le>k. rule_matches nfkd concepto (rules ! i)
               \<and> (\<forall>j<i. \<not> rule_matches nfkd concepto (rules ! j))
               \<and> apply_rules nfkd concepto rules = Str (py_str (Output_Template (rules ! i))))"
proof -
  let ?M = "\<lambda>i. rule_matches nfkd concepto (rules ! i)"
  have k: "?M k" using assms by (simp add: empty_keywords_match)
  define i where "i = (LEAST i. ?M i)"
  have i: "?M i" unfolding i_def using k by (rule LeastI)
  have ik: "i \<le> k" unfolding i_def using k by (rule Least_le)
  have least: "\<forall>j<i. \<not> ?M j" unfolding i_def using not_less_Least by blast
  from ik assms(2) have "i < length rules" by simp
  from apply_rules_first [OF this i least] i ik least k assms(3) show ?thesis
    by (auto simp: split_empty_keywords)
qed

theorem empty_keywords_rule_catches_all_witness:
  "apply_rules nfkd_sample (Str (ustr ''DEPOSITO''))
     (example_rules @ [\<lparr>Priority = 3, Keywords = Some (Str []), Output_Template = Str (ustr ''Otros'')\<rparr>])
   = Str (ustr ''Otros'')
   \<and> rule_matches nfkd_sample (Str (ustr ''DEPOSITO''))
        ((example_rules @ [\<lparr>Priority = 3, Keywords = Some (Str []), Output_Template = Str (ustr ''Otros'')\<rparr>]) ! 2)"
proof -
  let ?rules = "example_rules @ [\<lparr>Priority = 3, Keywords = Some (Str []), Output_Template = Str (ustr ''Otros'')\<rparr>]"
  have 1: "(2::nat) < length ?rules" by (simp add: example_rules_def)
  have 2: "Keywords (?rules ! 2) = Some (Str [])" by (simp add: example_rules_def)
  have 3: "apply_rules nfkd_sample (Str (ustr ''DEPOSITO'')) ?rules = Str (ustr ''Otros'')"
    by (simp add: example_rules_def eval_rules eval_text)
  from empty_keywords_rule_catches_all [OF nfkd_sample_fixes_ascii 1 2, of "Str (ustr ''DEPOSITO'')"]
  have "rule_matches nfkd_sample (Str (ustr ''DEPOSITO'')) (?rules ! 2)" by (rule conjunct1 [OF conjunct2])
  with 3 show ?thesis by (rule conjI)
qed

section \<open>Header detection: proofs\<close>

lemma is_header_row_qualifies: "is_header_row nfkd row \<longleftrightarrow> qualifies nfkd row"
  by (simp add: is_header_row_def qualifies_def required_headers_def row_as_string_def
        py_in_iff)

lemma find_header_row_none:
  "\<forall>r \<in> set candidates. \<not> qualifies nfkd r \<Longrightarrow> find_header_row nfkd k candidates = None"
  by (induction candidates arbitrary: k) (simp_all add: is_header_row_qualifies)

lemma find_header_row_first:
  "i < length candidates \<Longrightarrow> qualifies nfkd (candidates ! i)
     \<Longrightarrow> \<forall>j<i. \<not> qualifies nfkd (candidates ! j)
     \<Longrightarrow> find_header_row nfkd k candidates = Some (k + i)"
proof (induction candidates arbitrary: k i)
  case Nil
  then show ?case by simp
next
  case (Cons r rest)
  show ?case
  proof (cases i)
    case 0
    with Cons.prems show ?thesis by (simp add: is_header_row_qualifies)
  next
    case (Suc m)
    with Cons.prems have "\<not> qualifies nfkd r" by auto
    moreover from Suc Cons.prems have "m < length rest" "qualifies nfkd (rest ! m)"
      "\<forall>j<m. \<not> qualifies nfkd (rest ! j)" by auto
    ultimately show ?thesis using Cons.IH [of m "k + 1"] Suc
      by (simp add: is_header_row_qualifies)
  qed
qed

lemma normalize_table_none:
  assumes "\<forall>i. i < 5 \<and> i < length df \<longrightarrow> \<not> qualifies nfkd (df ! i)"
  shows "normalize_table nfkd df = None"
proof -
  have "\<forall>r \<in> set (take (min 5 (length df)) df). \<not> qualifies nfkd r"
    using assms by (auto simp: in_set_conv_nth)
  then show ?thesis by (simp add: normalize_table_def find_header_row_none)
qed

lemma normalize_table_first:
  assumes "\<not> df_empty df" "i < 5" "i < length df" "qualifies nfkd (df ! i)"
    "\<forall>j<i. \<not> qualifies nfkd (df ! j)"
  shows "normalize_table nfkd df =
           Some \<lparr>columns = map (\<lambda>c. normalize_text nfkd (Some c)) (df ! i),
                 rows = drop (Suc i) df\<rparr>"
proof -
  let ?c = "take (min 5 (length df)) df"
  from assms have "i < length ?c" "qualifies nfkd (?c ! i)" "\<forall>j<i. \<not> qualifies nfkd (?c ! j)"
    by simp_all
  from find_header_row_first [OF this, of 0] assms(1) show ?thesis
    by (simp add: normalize_table_def)
qed

lemma final_tables_append:
  "final_tables nfkd (a @ b) = final_tables nfkd a @ final_tables nfkd b"
  by (induction a) (simp_all split: option.splits)

lemma final_tables_discard:
  "normalize_table nfkd df = None
     \<Longrightarrow> final_tables nfkd (before @ df # rest) = final_tables nfkd (before @ rest)"
  by (simp add: final_tables_append)

text \<open>
  Claim C3. Header detection: only the first 5 rows of a raw table are candidates; a
  row qualifies when every normalized required label is a substring of its normalized
  cells joined with spaces. When none of the first 5 rows qualifies, the table gives no
  frame and the list of final tables is what it is without that table. On a table that
  is not empty, when row \<open>i\<close> is the first of them that qualifies, the frame has the
  normalized cells of row \<open>i\<close> as column labels and exactly the rows after row \<open>i\<close>
  as rows.
\<close>

theorem header_detection:
  "((\<forall>i. i < 5 \<and> i < length df \<longrightarrow> \<not> qualifies nfkd (df ! i))
      \<longrightarrow> normalize_table nfkd df = None
          \<and> final_tables nfkd (before @ df # rest) = final_tables nfkd (before @ rest))
   \<and> (\<forall>i. \<not> df_empty df \<and> i < 5 \<and> i < length df \<and> qualifies nfkd (df ! i)
             \<and> (\<forall>j<i. \<not> qualifies nfkd (df ! j))
          \<longrightarrow> normalize_table nfkd df =
                Some \<lparr>columns = map (\<lambda>c. normalize_text nfkd (Some c)) (df ! i),
                      rows = drop (Suc i) df\<rparr>
              \<and> final_tables nfkd [df] =
                  [\<lparr>columns = map (\<lambda>c. normalize_text nfkd (Some c)) (df ! i),
                    rows = drop (Suc i) df\<rparr>])"
proof (intro conjI allI impI)
  assume a: "\<forall>i. i < 5 \<and> i < length df \<longrightarrow> \<not> qualifies nfkd (df ! i)"
  then show n: "normalize_table nfkd df = None" by (rule normalize_table_none)
  then show "final_tables nfkd (before @ df # rest) = final_tables nfkd (before @ rest)"
    by (rule final_tables_discard)
next
  fix i
  assume a: "\<not> df_empty df \<and> i < 5 \<and> i < length df \<and> qualifies nfkd (df ! i)
             \<and> (\<forall>j<i. \<not> qualifies nfkd (df ! j))"
  then show t: "normalize_table nfkd df =
                Some \<lparr>columns = map (\<lambda>c. normalize_text nfkd (Some c)) (df ! i),
                      rows = drop (Suc i) df\<rparr>"
    by (intro normalize_table_first) simp_all
  then show "final_tables nfkd [df] =
                  [\<lparr>columns = map (\<lambda>c. normalize_text nfkd (Some c)) (df ! i),
                    rows = drop (Suc i) df\<rparr>]"
    by simp
qed

lemmas eval_table = normalize_table_def df_empty_def is_header_row_def row_as_string_def
  required_headers_def example_table_def

lemma example_table_qualifies:
  "qualifies nfkd_sample (example_table ! 2)"
  "\<not> qualifies nfkd_sample (example_table ! 0)"
  "\<not> qualifies nfkd_sample (example_table ! 1)"
  by (simp_all add: is_header_row_qualifies [symmetric] eval_table eval_text)

theorem header_detection_witness:
  "qualifies nfkd_sample (example_table ! 2)
   \<and> normalize_table nfkd_sample example_table =
       Some \<lparr>columns = [ustr ''dia'', ustr ''concepto'', ustr ''cargos'', ustr ''abonos'',
                         ustr ''saldo''],
             rows = [[Str (ustr ''1''), Str (ustr ''PAGO A''), Str (ustr ''10.00''), Str [],
                      Str (ustr ''90.00'')],
                     [Str [], Str (ustr ''PROVEEDOR X''), Str [], Str [], Str []]]\<rparr>"
proof -
  have e: "\<not> df_empty example_table" by (simp add: df_empty_def example_table_def)
  have l: "(2::nat) < 5 \<and> 2 < length example_table" by (simp add: example_table_def)
  have "\<not> qualifies nfkd_sample (example_table ! j)" if "j < 2" for j
  proof -
    from that have "j = 0 \<or> j = 1" by arith
    with example_table_qualifies(2,3) show ?thesis by auto
  qed
  with header_detection [of example_table nfkd_sample] e l example_table_qualifies(1)
  have "normalize_table nfkd_sample example_table =
          Some \<lparr>columns = map (\<lambda>c. normalize_text nfkd_sample (Some c)) (example_table ! 2),
                rows = drop (Suc 2) example_table\<rparr>"
    by blast
  then show ?thesis using example_table_qualifies(1)
    by (simp add: example_table_def eval_text)
qed

section \<open>Page range: proofs\<close>














section \<open>Documents without page range: proofs\<close>

lemma find_transaction_tables_unreadable:
  "page_texts doc = Inl e \<Longrightarrow> find_transaction_tables nfkd doc = []"
  by (simp add: find_transaction_tables_def)

lemma find_transaction_tables_no_range:
  "page_texts doc = Inr pages \<Longrightarrow> invalid_range (scan_pages nfkd 1 pages None None)
     \<Longrightarrow> find_transaction_tables nfkd doc = []"
  by (auto simp: find_transaction_tables_def invalid_range_def split: prod.splits option.splits)

lemma no_page_range_no_tables:
  "no_page_range nfkd doc \<Longrightarrow> find_transaction_tables nfkd doc = []"
  by (cases "page_texts doc")
    (simp_all add: no_page_range_def find_transaction_tables_unreadable
       find_transaction_tables_no_range)

lemma main_loop_skip:
  "find_transaction_tables nfkd doc = []
     \<Longrightarrow> main_loop nfkd write_sheet (before @ doc # rest) = main_loop nfkd write_sheet (before @ rest)"
  by (induction before) (simp_all add: Let_def split: sum.splits)

text \<open>
  Claim C6. Per-document soft failure: a document that cannot be opened or read gives
  no table; a document whose scan leaves the start page or the end page unset, or the
  end page before the start page, gives no table; and a document without page range,
  in either way, changes nothing in the run of the main loop: the loop over the
  documents gives what it gives without that document, whatever the other documents
  are.
\<close>

theorem no_page_range_soft_failure:
  "(page_texts doc = Inl e \<longrightarrow> find_transaction_tables nfkd doc = [])
   \<and> (page_texts doc = Inr pages
        \<and> (fst (scan_pages nfkd 1 pages None None) = None
            \<or> snd (scan_pages nfkd 1 pages None None) = None
            \<or> (\<exists>start_page end_page.
                  scan_pages nfkd 1 pages None None = (Some start_page, Some end_page)
                  \<and> end_page < start_page))
      \<longrightarrow> find_transaction_tables nfkd doc = [])
   \<and> (no_page_range nfkd doc \<longleftrightarrow>
        (\<exists>e. page_texts doc = Inl e)
        \<or> (\<exists>pages. page_texts doc = Inr pages
              \<and> (fst (scan_pages nfkd 1 pages None None) = None
                  \<or> snd (scan_pages nfkd 1 pages None None) = None
                  \<or> (\<exists>start_page end_page.
                        scan_pages nfkd 1 pages None None = (Some start_page, Some end_page)
                        \<and> end_page < start_page))))
   \<and> (no_page_range nfkd doc \<longrightarrow>
        main_loop nfkd write_sheet (before @ doc # rest)
          = main_loop nfkd write_sheet (before @ rest))"
proof -
  have inv: "invalid_range r \<longleftrightarrow>
      fst r = None \<or> snd r = None \<or> (\<exists>s t. r = (Some s, Some t) \<and> t < s)" for r
    by (auto simp: invalid_range_def split: prod.splits option.splits)
  have 3: "no_page_range nfkd doc \<longleftrightarrow>
        (\<exists>e. page_texts doc = Inl e)
        \<or> (\<exists>pages. page_texts doc = Inr pages
              \<and> invalid_range (scan_pages nfkd 1 pages None None))"
    by (cases "page_texts doc") (simp_all add: no_page_range_def)
  have 1: "page_texts doc = Inl e \<longrightarrow> find_transaction_tables nfkd doc = []"
    by (simp add: find_transaction_tables_unreadable)
  have 2: "page_texts doc = Inr pages \<and> invalid_range (scan_pages nfkd 1 pages None None)
      \<longrightarrow> find_transaction_tables nfkd doc = []"
    by (simp add: find_transaction_tables_no_range)
  have 4: "no_page_range nfkd doc \<longrightarrow>
        main_loop nfkd write_sheet (before @ doc # rest)
          = main_loop nfkd write_sheet (before @ rest)"
    by (simp add: no_page_range_no_tables main_loop_skip)
  from 1 2 3 4 show ?thesis unfolding inv by (intro conjI)
qed

lemmas eval_doc = find_transaction_tables_def example_doc_def unreadable_doc_def
  reversed_doc_def start_marker_def end_marker_def

lemma example_doc_tables: "find_transaction_tables nfkd_sample example_doc = [example_frame]"
  by (simp add: eval_doc example_pages_def eval_table example_frame_def eval_text)

lemma reversed_doc_scan:
  "scan_pages nfkd_sample 1 [ustr ''Saldo minimo requerido'', ustr ''Saldo inicial''] None None
     = (Some 2, Some 1)"
  by (simp add: start_marker_def end_marker_def eval_text)

theorem no_page_range_soft_failure_witness:
  "find_transaction_tables nfkd_sample unreadable_doc = []
   \<and> find_transaction_tables nfkd_sample reversed_doc = []
   \<and> main_loop nfkd_sample Inr [unreadable_doc, example_doc, reversed_doc]
       = Inr [[example_frame]]"
proof -
  have u: "no_page_range nfkd_sample unreadable_doc"
    by (simp add: no_page_range_def unreadable_doc_def)
  have r: "no_page_range nfkd_sample reversed_doc"
    using reversed_doc_scan
    by (simp add: no_page_range_def reversed_doc_def invalid_range_def del: scan_pages.simps)
  have m: "main_loop nfkd_sample Inr [example_doc] = Inr [[example_frame]]"
    by (simp add: example_doc_tables)
  from no_page_range_soft_failure [of unreadable_doc _ nfkd_sample _ Inr "[]"
      "[example_doc, reversed_doc]"] u
  have 1: "find_transaction_tables nfkd_sample unreadable_doc = []"
    "main_loop nfkd_sample Inr [unreadable_doc, example_doc, reversed_doc]
       = main_loop nfkd_sample Inr [example_doc, reversed_doc]"
    by (simp_all add: unreadable_doc_def)
  from no_page_range_soft_failure [of reversed_doc _ nfkd_sample
      "[ustr ''Saldo minimo requerido'', ustr ''Saldo inicial'']" Inr "[example_doc]" "[]"] r
  have 2: "find_transaction_tables nfkd_sample reversed_doc = []"
    "main_loop nfkd_sample Inr [example_doc, reversed_doc] = main_loop nfkd_sample Inr [example_doc]"
    using reversed_doc_scan by (simp_all add: reversed_doc_def del: scan_pages.simps)
  from 1 2 m show ?thesis by simp
qed

section \<open>From header detection to the merger\<close>

lemma nfkd_ascii: "nfkd_fixes_ascii nfkd \<Longrightarrow> is_ascii s \<Longrightarrow> nfkd s = s"
  by (simp add: nfkd_fixes_ascii_def)

lemmas eval_ascii = normalize_text_def ustr_def is_ascii_def encode_ascii_ignore_def
  py_lower_def lower_char_def py_split_def py_isspace_def

lemma one_cell_table_normalized:
  assumes "nfkd_fixes_ascii nfkd"
  shows "normalize_table nfkd one_cell_table = Some one_cell_frame"
  by (simp add: normalize_table_def df_empty_def is_header_row_def row_as_string_def
        required_headers_def one_cell_table_def one_cell_frame_def
        nfkd_ascii [OF assms] eval_ascii)

lemma one_cell_frame_passes:
  "merge_concepto_lines to_numeric_notna one_cell_frame = Inr one_cell_frame"
  by (simp add: merge_concepto_lines_def one_cell_frame_def ustr_def)

text \<open>
  Claim C10. Passing header detection does not make \<open>dia\<close> and \<open>concepto\<close> column
  labels. The raw table whose first row is the single cell
  \<open>Dia Concepto Cargos Abonos Saldo\<close> has a qualifying header row; the frame made of
  it has the one label \<open>dia concepto cargos abonos saldo\<close>, so neither \<open>dia\<close> nor
  \<open>concepto\<close> is a label of it, and \<open>merge_concepto_lines\<close> returns that frame as it
  is, its continuation row not merged.
\<close>

theorem header_without_exact_labels:
  assumes "nfkd_fixes_ascii nfkd"
  shows "qualifies nfkd (one_cell_table ! 0)
         \<and> normalize_table nfkd one_cell_table = Some one_cell_frame
         \<and> ustr ''dia'' \<notin> set (columns one_cell_frame)
         \<and> ustr ''concepto'' \<notin> set (columns one_cell_frame)
         \<and> merge_concepto_lines to_numeric_notna one_cell_frame = Inr one_cell_frame"
proof -
  have "qualifies nfkd (one_cell_table ! 0)"
    by (simp add: is_header_row_qualifies [symmetric] is_header_row_def row_as_string_def
        required_headers_def one_cell_table_def nfkd_ascii [OF assms] eval_ascii)
  moreover have "ustr ''dia'' \<notin> set (columns one_cell_frame)"
    "ustr ''concepto'' \<notin> set (columns one_cell_frame)"
    by (simp_all add: one_cell_frame_def ustr_def)
  ultimately show ?thesis
    using one_cell_table_normalized [OF assms] one_cell_frame_passes by simp
qed

theorem header_without_exact_labels_witness:
  "nfkd_fixes_ascii nfkd_sample
   \<and> normalize_table nfkd_sample one_cell_table = Some one_cell_frame
   \<and> merge_concepto_lines to_numeric_sample one_cell_frame = Inr one_cell_frame"
  using header_without_exact_labels [OF nfkd_sample_fixes_ascii, of to_numeric_sample]
    nfkd_sample_fixes_ascii by simp

end
